theory Spec2Isabelle
  imports Complex_Main
begin

section \<open>The import job of \<^verbatim>\<open>migrate_to_db.py\<close>\<close>

text \<open>
  The script reads two line-delimited JSON files and stages one database row per accepted
  line, committing once at the end of each sub-procedure. The embedding below follows
  \<^verbatim>\<open>migrate_wallets\<close>, \<^verbatim>\<open>migrate_transactions\<close> and the
  \<^verbatim>\<open>__main__\<close> block statement by statement. Everything the script
  touches outside itself is explicit: the two files, the tables, the session, the clock,
  standard output, and the exceptions that a statement can raise.
\<close>

subsection \<open>Python values\<close>

text \<open>
  A Python \<^verbatim>\<open>float\<close>: the finite ones by their exact rational value,
  and the three special values that \<^verbatim>\<open>json.loads\<close> also produces
  (\<^verbatim>\<open>Infinity\<close>, \<^verbatim>\<open>-Infinity\<close>, \<^verbatim>\<open>NaN\<close>).
\<close>

datatype pyfloat = Finite rat | PosInf | NegInf | NaN

text \<open>What \<^verbatim>\<open>json.loads\<close> returns: \<^verbatim>\<open>None\<close>, a bool, an
  unbounded int, a float, a str, a list or a dict (its items, one per key).\<close>

datatype json =
    JNull
  | JBool bool
  | JInt int
  | JFloat pyfloat
  | JStr string
  | JArr "json list"
  | JObj "(string \<times> json) list"

text \<open>The exceptions that the statements of the script can raise.\<close>

datatype py_error =
    JSONDecodeError
  | ValueError
  | TypeError
  | AttributeError
  | OverflowError
  | CommitError

text \<open>
  \<^verbatim>\<open>except (json.JSONDecodeError, ValueError)\<close>: the clause of both line loops.
  \<^verbatim>\<open>JSONDecodeError\<close> is a subclass of \<^verbatim>\<open>ValueError\<close>; the other
  exceptions are not.
\<close>

fun caught_by_line_handler :: "py_error \<Rightarrow> bool" where
  "caught_by_line_handler JSONDecodeError = True"
| "caught_by_line_handler ValueError = True"
| "caught_by_line_handler _ = False"

text \<open>Truth value of a Python object, as \<^verbatim>\<open>if x:\<close> and \<^verbatim>\<open>x or y\<close> test it.\<close>

fun truthy :: "json \<Rightarrow> bool" where
  "truthy JNull = False"
| "truthy (JBool b) = b"
| "truthy (JInt n) = (n \<noteq> 0)"
| "truthy (JFloat f) = (f \<noteq> Finite 0)"
| "truthy (JStr s) = (s \<noteq> [])"
| "truthy (JArr xs) = (xs \<noteq> [])"
| "truthy (JObj kvs) = (kvs \<noteq> [])"

text \<open>
  \<^verbatim>\<open>data.get(key, default)\<close>. Only a dict has the method: on any other JSON
  value the attribute lookup raises \<^verbatim>\<open>AttributeError\<close>.
\<close>

fun py_get :: "json \<Rightarrow> string \<Rightarrow> json \<Rightarrow> py_error + json" where
  "py_get (JObj kvs) key dflt = Inr (case map_of kvs key of None \<Rightarrow> dflt | Some v \<Rightarrow> v)"
| "py_get _ key dflt = Inl AttributeError"

text \<open>\<^verbatim>\<open>data.get(key, default)\<close> once \<^verbatim>\<open>data\<close> is known to be a dict: it raises
  nothing. \<^verbatim>\<open>data.get(key)\<close> is the call with the default \<^verbatim>\<open>None\<close>.\<close>

fun dict_get :: "json \<Rightarrow> string \<Rightarrow> json \<Rightarrow> json" where
  "dict_get (JObj kvs) key dflt = (case map_of kvs key of None \<Rightarrow> dflt | Some v \<Rightarrow> v)"
| "dict_get _ key dflt = dflt"

subsection \<open>The environment\<close>

text \<open>
  The functions of the Python standard library and the events of the outside world that the
  script depends on are parameters:
  \<^item> \<open>json_loads\<close>: \<^verbatim>\<open>json.loads\<close> on a stripped line, \<open>None\<close> for
    \<^verbatim>\<open>JSONDecodeError\<close> (the value of a well-formed line, whatever its nesting, is taken
    to be computed: \<^verbatim>\<open>RecursionError\<close> is left out);
  \<^item> \<open>fromisoformat\<close>: \<^verbatim>\<open>datetime.fromisoformat\<close> on a str, \<open>None\<close> for
    \<^verbatim>\<open>ValueError\<close>;
  \<^item> \<open>utcnow\<close>: the value that the \<open>n\<close>-th call of \<^verbatim>\<open>datetime.utcnow()\<close>
    returns;
  \<^item> \<open>int_of_str\<close>, \<open>float_of_str\<close>: \<^verbatim>\<open>int(s)\<close> and \<^verbatim>\<open>float(s)\<close> on a str,
    \<open>None\<close> for \<^verbatim>\<open>ValueError\<close>;
  \<^item> \<open>float_of_big_int\<close>: \<^verbatim>\<open>float(n)\<close> on an int beyond \<open>2^53\<close> in magnitude (rounded
    to a double), \<open>None\<close> for \<^verbatim>\<open>OverflowError\<close>;
  \<^item> \<open>commit_ok\<close>: whether the \<open>n\<close>-th \<^verbatim>\<open>db.session.commit()\<close> is accepted by
    the storage layer.
\<close>

record 'dt env =
  json_loads :: "string \<Rightarrow> json option"
  fromisoformat :: "string \<Rightarrow> 'dt option"
  utcnow :: "nat \<Rightarrow> 'dt"
  int_of_str :: "string \<Rightarrow> int option"
  float_of_str :: "string \<Rightarrow> pyfloat option"
  float_of_big_int :: "int \<Rightarrow> pyfloat option"
  commit_ok :: "nat \<Rightarrow> bool"

text \<open>\<^verbatim>\<open>int(x)\<close>: a float is truncated towards zero.\<close>

fun py_int :: "'dt env \<Rightarrow> json \<Rightarrow> py_error + int" where
  "py_int env (JInt n) = Inr n"
| "py_int env (JBool b) = Inr (if b then 1 else 0)"
| "py_int env (JFloat (Finite r)) = Inr (if 0 \<le> r then \<lfloor>r\<rfloor> else \<lceil>r\<rceil>)"
| "py_int env (JFloat NaN) = Inl ValueError"
| "py_int env (JFloat PosInf) = Inl OverflowError"
| "py_int env (JFloat NegInf) = Inl OverflowError"
| "py_int env (JStr s) = (case int_of_str env s of None \<Rightarrow> Inl ValueError | Some n \<Rightarrow> Inr n)"
| "py_int env JNull = Inl TypeError"
| "py_int env (JArr xs) = Inl TypeError"
| "py_int env (JObj kvs) = Inl TypeError"

text \<open>\<^verbatim>\<open>float(x)\<close>: an int up to \<open>2^53\<close> in magnitude is converted exactly.\<close>

fun py_float :: "'dt env \<Rightarrow> json \<Rightarrow> py_error + pyfloat" where
  "py_float env (JFloat f) = Inr f"
| "py_float env (JInt n) =
     (if \<bar>n\<bar> \<le> 2 ^ 53 then Inr (Finite (of_int n))
      else (case float_of_big_int env n of None \<Rightarrow> Inl OverflowError | Some f \<Rightarrow> Inr f))"
| "py_float env (JBool b) = Inr (Finite (if b then 1 else 0))"
| "py_float env (JStr s) = (case float_of_str env s of None \<Rightarrow> Inl ValueError | Some f \<Rightarrow> Inr f)"
| "py_float env JNull = Inl TypeError"
| "py_float env (JArr xs) = Inl TypeError"
| "py_float env (JObj kvs) = Inl TypeError"

text \<open>
  \<^verbatim>\<open>line.strip()\<close>: leading and trailing whitespace removed. The whitespace
  characters of \<^verbatim>\<open>str.strip\<close> below code point 256.
\<close>

definition py_isspace :: "char \<Rightarrow> bool" where
  "py_isspace c = (of_char c \<in> {9, 10, 11, 12, 13, 28, 29, 30, 31, 32, 133, 160 :: nat})"

definition strip :: "string \<Rightarrow> string" where
  "strip s = rev (dropWhile py_isspace (rev (dropWhile py_isspace s)))"

subsection \<open>Rows, session and world\<close>

text \<open>The columns that \<^verbatim>\<open>Wallet(...)\<close> is given (lines 75 to 80).\<close>

record 'dt wallet =
  user_id :: int
  balance :: pyfloat
  created_at :: "'dt"
  last_updated :: "'dt"

text \<open>The columns that \<^verbatim>\<open>Transaction(...)\<close> is given (lines 148 to 161). The
  fields copied through without coercion keep the JSON value of the line.\<close>

record 'dt txn =
  transaction_id :: json
  txn_user_id :: int
  username :: json
  amount :: pyfloat
  txn_method :: json
  status :: json
  txn_type :: json
  description :: json
  new_balance :: json
  txn_date :: json
  txn_time :: json
  timestamp :: "'dt"

text \<open>What the script prints: one constructor per \<^verbatim>\<open>print\<close> statement of the two
  sub-procedures, with the values that the message interpolates, and one per block of
  consecutive \<^verbatim>\<open>print\<close> statements of the \<^verbatim>\<open>__main__\<close> block. Standard output is
  taken to accept every message.\<close>

datatype log =
    SkipNoWalletFile
  | SkipWalletUserNotFound int
  | SkipWalletExists int
  | OkWallet int json
  | ErrorWalletLine py_error
  | OkWalletsCommitted nat
  | ErrorWalletsCommit
  | SkipNoTransactionFile
  | SkipTransactionUserNotFound int json
  | SkipTransactionExists json int
  | OkTransaction json int json
  | ErrorTransactionLine py_error
  | OkTransactionsCommitted nat
  | ErrorTransactionsCommit
  | Banner
  | TablesVerified
  | HeadingWallets
  | HeadingTransactions
  | Summary nat nat

text \<open>The calls that reach the storage layer.\<close>

datatype db_op =
    CreateAll
  | QueryUsers
  | QueryWallet int
  | QueryTransaction json int
  | AddWallet
  | AddTransaction
  | Commit
  | Rollback

text \<open>
  The world the script runs in: the two input files (\<open>None\<close> when the file does not
  exist, otherwise its lines as \<^verbatim>\<open>for line in f\<close> yields them, decoded), the
  committed rows of the three tables, the rows staged in the session and not yet committed,
  the number of clock readings and of commits so far, what has been printed, and the calls
  made to the storage layer.
\<close>

record 'dt world =
  wallets_txt :: "string list option"
  transactions_txt :: "string list option"
  users :: "int list"
  wallets :: "'dt wallet list"
  transactions :: "'dt txn list"
  new_wallets :: "'dt wallet list"
  new_transactions :: "'dt txn list"
  clock :: nat
  commits :: nat
  stdout :: "log list"
  db_ops :: "db_op list"

definition print :: "log \<Rightarrow> 'dt world \<Rightarrow> 'dt world" where
  "print l w = w\<lparr>stdout := stdout w @ [l]\<rparr>"

definition db_call :: "db_op \<Rightarrow> 'dt world \<Rightarrow> 'dt world" where
  "db_call op w = w\<lparr>db_ops := db_ops w @ [op]\<rparr>"

subsection \<open>Clock and storage layer\<close>

text \<open>\<^verbatim>\<open>datetime.utcnow()\<close>: one more reading of the clock.\<close>

definition datetime_utcnow :: "'dt env \<Rightarrow> 'dt world \<Rightarrow> 'dt \<times> 'dt world" where
  "datetime_utcnow env w = (utcnow env (clock w), w\<lparr>clock := clock w + 1\<rparr>)"

text \<open>
  \<^verbatim>\<open>datetime.fromisoformat(v)\<close> on a value of the line: \<^verbatim>\<open>TypeError\<close>
  unless \<open>v\<close> is a str, \<^verbatim>\<open>ValueError\<close> when the str is not an ISO-8601 timestamp
  (the empty str never is).
\<close>

fun datetime_fromisoformat :: "'dt env \<Rightarrow> json \<Rightarrow> py_error + 'dt" where
  "datetime_fromisoformat env (JStr s) =
     (if s = [] then Inl ValueError
      else (case fromisoformat env s of None \<Rightarrow> Inl ValueError | Some d \<Rightarrow> Inr d))"
| "datetime_fromisoformat env _ = Inl TypeError"

text \<open>
  Modelled from the spec: the persistence layer (\<^verbatim>\<open>models.py\<close>: \<^verbatim>\<open>db\<close>,
  \<^verbatim>\<open>User\<close>, \<^verbatim>\<open>Wallet\<close>, \<^verbatim>\<open>Transaction\<close>) is not among the
  sources. The spec gives the job "(a) a read-only snapshot of existing user ids, (b)
  insert/commit/rollback operations on the wallet and transaction tables, (c)
  existence-check queries keyed by user id and by (transaction id, user id)", and states
  that the persister "stages valid records for insertion and commits the batch at the end".
  An existence check sees the committed rows and the rows staged so far in the session
  (the session flushes staged rows before it runs a query); a commit that the storage
  layer accepts makes the staged rows durable, one that it rejects raises; a rollback
  drops the staged rows.
\<close>

definition user_query_all :: "'dt world \<Rightarrow> int list \<times> 'dt world" where
  "user_query_all w = (users w, db_call QueryUsers w)"

definition wallet_query_first :: "int \<Rightarrow> 'dt world \<Rightarrow> 'dt wallet option \<times> 'dt world" where
  "wallet_query_first uid w =
     (find (\<lambda>x. user_id x = uid) (wallets w @ new_wallets w), db_call (QueryWallet uid) w)"

definition transaction_query_first ::
  "json \<Rightarrow> int \<Rightarrow> 'dt world \<Rightarrow> 'dt txn option \<times> 'dt world" where
  "transaction_query_first tid uid w =
     (find (\<lambda>x. transaction_id x = tid \<and> txn_user_id x = uid)
        (transactions w @ new_transactions w),
      db_call (QueryTransaction tid uid) w)"

definition session_add_wallet :: "'dt wallet \<Rightarrow> 'dt world \<Rightarrow> 'dt world" where
  "session_add_wallet x w = db_call AddWallet (w\<lparr>new_wallets := new_wallets w @ [x]\<rparr>)"

definition session_add_transaction :: "'dt txn \<Rightarrow> 'dt world \<Rightarrow> 'dt world" where
  "session_add_transaction x w =
     db_call AddTransaction (w\<lparr>new_transactions := new_transactions w @ [x]\<rparr>)"

definition session_commit :: "'dt env \<Rightarrow> 'dt world \<Rightarrow> ('dt world) + ('dt world)" where
  "session_commit env w =
     (let w' = db_call Commit (w\<lparr>commits := commits w + 1\<rparr>)
      in if commit_ok env (commits w)
         then Inr (w'\<lparr>wallets := wallets w @ new_wallets w,
                      transactions := transactions w @ new_transactions w,
                      new_wallets := [], new_transactions := []\<rparr>)
         else Inl w')"

definition session_rollback :: "'dt world \<Rightarrow> 'dt world" where
  "session_rollback w = db_call Rollback (w\<lparr>new_wallets := [], new_transactions := []\<rparr>)"

subsection \<open>Timestamps\<close>

text \<open>
  Lines 62 to 68 (and 69 to 73, 141 to 146): the variable starts as \<^verbatim>\<open>None\<close>; a
  truthy field is parsed, and \<^verbatim>\<open>except (ValueError, TypeError)\<close> replaces a failed
  parse by a reading of the clock. \<open>datetime_fromisoformat\<close> raises nothing else.
\<close>

definition parse_timestamp :: "'dt env \<Rightarrow> json \<Rightarrow> 'dt world \<Rightarrow> 'dt option \<times> 'dt world" where
  "parse_timestamp env v w =
     (if truthy v then
        (case datetime_fromisoformat env v of
           Inr d \<Rightarrow> (Some d, w)
         | Inl e \<Rightarrow> (let (t, w') = datetime_utcnow env w in (Some t, w')))
      else (None, w))"

text \<open>\<^verbatim>\<open>x or datetime.utcnow()\<close>: a datetime is always truthy, \<^verbatim>\<open>None\<close> never.\<close>

definition or_utcnow :: "'dt env \<Rightarrow> 'dt option \<Rightarrow> 'dt world \<Rightarrow> 'dt \<times> 'dt world" where
  "or_utcnow env x w = (case x of Some d \<Rightarrow> (d, w) | None \<Rightarrow> datetime_utcnow env w)"

subsection \<open>\<^verbatim>\<open>migrate_wallets\<close>\<close>

text \<open>
  The body of the \<^verbatim>\<open>try\<close> of the wallet loop (lines 46 to 83), on a stripped
  non-empty line. The loop variables are \<open>(count, skipped)\<close>. \<open>Inl\<close> is an exception
  raised by the body, with the world as it is then; neither counter has changed at any
  point that can raise.
\<close>

definition wallet_try ::
  "'dt env \<Rightarrow> int set \<Rightarrow> nat \<times> nat \<times> 'dt world \<Rightarrow> string
     \<Rightarrow> (py_error \<times> 'dt world) + (nat \<times> nat \<times> 'dt world)" where
  "wallet_try env valid_user_ids st line =
     (case st of (count, skipped, w) \<Rightarrow>
      (case json_loads env line of
         None \<Rightarrow> Inl (JSONDecodeError, w)
       | Some data \<Rightarrow>
      (case py_get data ''user_id'' (JInt 0) of
         Inl e \<Rightarrow> Inl (e, w)
       | Inr v \<Rightarrow>
      (case py_int env v of
         Inl e \<Rightarrow> Inl (e, w)
       | Inr uid \<Rightarrow>
         if uid \<notin> valid_user_ids then
           Inr (count, skipped + 1, print (SkipWalletUserNotFound uid) w)
         else
           (case wallet_query_first uid w of
              (Some existing, w1) \<Rightarrow> Inr (count, skipped, print (SkipWalletExists uid) w1)
            | (None, w1) \<Rightarrow>
              (case parse_timestamp env (dict_get data ''created_at'' JNull) w1 of
                 (created, w2) \<Rightarrow>
              (case parse_timestamp env (dict_get data ''last_updated'' JNull) w2 of
                 (updated, w3) \<Rightarrow>
              (case py_float env (dict_get data ''balance'' (JFloat (Finite 0))) of
                 Inl e \<Rightarrow> Inl (e, w3)
               | Inr bal \<Rightarrow>
              (case or_utcnow env created w3 of
                 (c, w4) \<Rightarrow>
              (case or_utcnow env updated w4 of
                 (u, w5) \<Rightarrow>
                 Inr (count + 1, skipped,
                      print (OkWallet uid (dict_get data ''balance'' (JInt 0)))
                        (session_add_wallet
                           \<lparr>user_id = uid, balance = bal, created_at = c, last_updated = u\<rparr>
                           w5))))))))))))"

text \<open>
  One iteration of the loop (lines 41 to 87): a line that is empty once stripped is passed
  over; an exception of the body that the handler of line 85 catches is printed and the
  loop goes on; any other exception leaves the loop.
\<close>

definition wallet_line ::
  "'dt env \<Rightarrow> int set \<Rightarrow> nat \<times> nat \<times> 'dt world \<Rightarrow> string
     \<Rightarrow> (py_error \<times> 'dt world) + (nat \<times> nat \<times> 'dt world)" where
  "wallet_line env valid_user_ids st raw =
     (let line = strip raw in
      if line = [] then Inr st
      else
        (case wallet_try env valid_user_ids st line of
           Inr st' \<Rightarrow> Inr st'
         | Inl (e, w') \<Rightarrow>
             if caught_by_line_handler e
             then Inr (fst st, fst (snd st), print (ErrorWalletLine e) w')
             else Inl (e, w')))"

text \<open>The \<^verbatim>\<open>for line in f\<close> loop: it ends at the first exception that escapes.\<close>

fun wallet_loop ::
  "'dt env \<Rightarrow> int set \<Rightarrow> nat \<times> nat \<times> 'dt world \<Rightarrow> string list
     \<Rightarrow> (py_error \<times> 'dt world) + (nat \<times> nat \<times> 'dt world)" where
  "wallet_loop env valid_user_ids st [] = Inr st"
| "wallet_loop env valid_user_ids st (raw # rest) =
     (case wallet_line env valid_user_ids st raw of
        Inl x \<Rightarrow> Inl x
      | Inr st' \<Rightarrow> wallet_loop env valid_user_ids st' rest)"

text \<open>
  \<^verbatim>\<open>migrate_wallets(app)\<close>: the value returned, or the exception that escapes, and
  the world afterwards.
\<close>

definition migrate_wallets :: "'dt env \<Rightarrow> 'dt world \<Rightarrow> (py_error + nat) \<times> 'dt world" where
  "migrate_wallets env w =
     (case wallets_txt w of
        None \<Rightarrow> (Inr 0, print SkipNoWalletFile w)
      | Some f \<Rightarrow>
          (case user_query_all w of
             (us, w1) \<Rightarrow>
          (case wallet_loop env (set us) (0, 0, w1) f of
             Inl (e, w2) \<Rightarrow> (Inl e, w2)
           | Inr (count, skipped, w2) \<Rightarrow>
               (case session_commit env w2 of
                  Inr w3 \<Rightarrow> (Inr count, print (OkWalletsCommitted count) w3)
                | Inl w3 \<Rightarrow> (Inr count, print ErrorWalletsCommit (session_rollback w3))))))"

subsection \<open>\<^verbatim>\<open>migrate_transactions\<close>\<close>

text \<open>The body of the \<^verbatim>\<open>try\<close> of the transaction loop (lines 121 to 164).\<close>

definition transaction_try ::
  "'dt env \<Rightarrow> int set \<Rightarrow> nat \<times> nat \<times> 'dt world \<Rightarrow> string
     \<Rightarrow> (py_error \<times> 'dt world) + (nat \<times> nat \<times> 'dt world)" where
  "transaction_try env valid_user_ids st line =
     (case st of (count, skipped, w) \<Rightarrow>
      (case json_loads env line of
         None \<Rightarrow> Inl (JSONDecodeError, w)
       | Some data \<Rightarrow>
      (case py_get data ''id'' (JStr []) of
         Inl e \<Rightarrow> Inl (e, w)
       | Inr txn_id \<Rightarrow>
      (case py_int env (dict_get data ''user_id'' (JInt 0)) of
         Inl e \<Rightarrow> Inl (e, w)
       | Inr uid \<Rightarrow>
         if uid \<notin> valid_user_ids then
           Inr (count, skipped + 1, print (SkipTransactionUserNotFound uid txn_id) w)
         else
           (case transaction_query_first txn_id uid w of
              (Some existing, w1) \<Rightarrow>
                Inr (count, skipped, print (SkipTransactionExists txn_id uid) w1)
            | (None, w1) \<Rightarrow>
              (case parse_timestamp env (dict_get data ''timestamp'' JNull) w1 of
                 (ts, w2) \<Rightarrow>
              (case py_float env (dict_get data ''amount'' (JInt 0)) of
                 Inl e \<Rightarrow> Inl (e, w2)
               | Inr amt \<Rightarrow>
              (case or_utcnow env ts w2 of
                 (t, w3) \<Rightarrow>
                 Inr (count + 1, skipped,
                      print (OkTransaction txn_id uid (dict_get data ''amount'' (JInt 0)))
                        (session_add_transaction
                           \<lparr>transaction_id = txn_id,
                            txn_user_id = uid,
                            username = dict_get data ''username'' JNull,
                            amount = amt,
                            txn_method = dict_get data ''method'' (JStr ''wallet''),
                            status = dict_get data ''status'' (JStr ''success''),
                            txn_type = dict_get data ''type'' JNull,
                            description = dict_get data ''description'' (JStr []),
                            new_balance = dict_get data ''new_balance'' JNull,
                            txn_date = dict_get data ''date'' (JStr []),
                            txn_time = dict_get data ''time'' (JStr []),
                            timestamp = t\<rparr>
                           w3))))))))))"

text \<open>One iteration of the loop (lines 116 to 168).\<close>

definition transaction_line ::
  "'dt env \<Rightarrow> int set \<Rightarrow> nat \<times> nat \<times> 'dt world \<Rightarrow> string
     \<Rightarrow> (py_error \<times> 'dt world) + (nat \<times> nat \<times> 'dt world)" where
  "transaction_line env valid_user_ids st raw =
     (let line = strip raw in
      if line = [] then Inr st
      else
        (case transaction_try env valid_user_ids st line of
           Inr st' \<Rightarrow> Inr st'
         | Inl (e, w') \<Rightarrow>
             if caught_by_line_handler e
             then Inr (fst st, fst (snd st), print (ErrorTransactionLine e) w')
             else Inl (e, w')))"

fun transaction_loop ::
  "'dt env \<Rightarrow> int set \<Rightarrow> nat \<times> nat \<times> 'dt world \<Rightarrow> string list
     \<Rightarrow> (py_error \<times> 'dt world) + (nat \<times> nat \<times> 'dt world)" where
  "transaction_loop env valid_user_ids st [] = Inr st"
| "transaction_loop env valid_user_ids st (raw # rest) =
     (case transaction_line env valid_user_ids st raw of
        Inl x \<Rightarrow> Inl x
      | Inr st' \<Rightarrow> transaction_loop env valid_user_ids st' rest)"

text \<open>\<^verbatim>\<open>migrate_transactions(app)\<close>.\<close>

definition migrate_transactions ::
  "'dt env \<Rightarrow> 'dt world \<Rightarrow> (py_error + nat) \<times> 'dt world" where
  "migrate_transactions env w =
     (case transactions_txt w of
        None \<Rightarrow> (Inr 0, print SkipNoTransactionFile w)
      | Some f \<Rightarrow>
          (case user_query_all w of
             (us, w1) \<Rightarrow>
          (case transaction_loop env (set us) (0, 0, w1) f of
             Inl (e, w2) \<Rightarrow> (Inl e, w2)
           | Inr (count, skipped, w2) \<Rightarrow>
               (case session_commit env w2 of
                  Inr w3 \<Rightarrow> (Inr count, print (OkTransactionsCommitted count) w3)
                | Inl w3 \<Rightarrow>
                    (Inr count, print ErrorTransactionsCommit (session_rollback w3))))))"

subsection \<open>The \<^verbatim>\<open>__main__\<close> block\<close>

text \<open>
  Modelled from the spec: \<^verbatim>\<open>create_app\<close> (\<^verbatim>\<open>app.py\<close>) is not among the sources;
  it is "the application bootstrap that supplies a configured database session". A
  process starts with a session of its own, in which nothing is staged: rows that an
  earlier process had staged and not committed are not in the database.
\<close>

definition create_app :: "'dt world \<Rightarrow> 'dt world" where
  "create_app w = w\<lparr>new_wallets := [], new_transactions := []\<rparr>"

text \<open>
  Lines 181 to 212, one run of the script: the two counts that the summary prints, or the
  exception that ends the process, and the world afterwards. \<^verbatim>\<open>db.create_all()\<close>
  creates missing tables and touches no row.
\<close>

definition run_job :: "'dt env \<Rightarrow> 'dt world \<Rightarrow> (py_error + nat \<times> nat) \<times> 'dt world" where
  "run_job env w =
     (let w0 = print HeadingWallets
                 (print TablesVerified (db_call CreateAll (create_app (print Banner w))))
      in case migrate_wallets env w0 of
           (Inl e, w1) \<Rightarrow> (Inl e, w1)
         | (Inr wallet_count, w1) \<Rightarrow>
             (case migrate_transactions env (print HeadingTransactions w1) of
                (Inl e, w2) \<Rightarrow> (Inl e, w2)
              | (Inr txn_count, w2) \<Rightarrow>
                  (Inr (wallet_count, txn_count), print (Summary wallet_count txn_count) w2)))"

subsection \<open>What an iteration decides\<close>

text \<open>
  The definitions of this subsection are not in the script: they restate, as functions of
  the line and of the keys that exist already, what the body of each loop decides, and are
  proved below to agree with \<open>wallet_loop\<close> and \<open>transaction_loop\<close>. The keys are the
  user ids of the wallets, and the pairs (transaction id, user id) of the transactions, that
  are committed or staged.
\<close>

definition wallet_keys :: "'dt world \<Rightarrow> int set" where
  "wallet_keys w = user_id ` set (wallets w @ new_wallets w)"

definition transaction_keys :: "'dt world \<Rightarrow> (json \<times> int) set" where
  "transaction_keys w =
     (\<lambda>x. (transaction_id x, txn_user_id x)) ` set (transactions w @ new_transactions w)"

text \<open>What no iteration changes: the files, the users, the committed rows, the number of
  commits.\<close>

definition same_store :: "'dt world \<Rightarrow> 'dt world \<Rightarrow> bool" where
  "same_store w w' =
     (wallets_txt w' = wallets_txt w \<and> transactions_txt w' = transactions_txt w \<and>
      users w' = users w \<and> wallets w' = wallets w \<and> transactions w' = transactions w \<and>
      commits w' = commits w)"

text \<open>The outcome of one iteration: the line is blank, an exception is raised in the body,
  the user is unknown, the row exists, or a row with the given key is staged.\<close>

datatype 'k verdict = VBlank | VError py_error | VSkipUser | VExists | VStage 'k

definition wallet_verdict :: "'dt env \<Rightarrow> int set \<Rightarrow> int set \<Rightarrow> string \<Rightarrow> int verdict" where
  "wallet_verdict env valid_user_ids keys raw =
     (let line = strip raw in
      if line = [] then VBlank
      else
        (case json_loads env line of
           None \<Rightarrow> VError JSONDecodeError
         | Some data \<Rightarrow>
        (case py_get data ''user_id'' (JInt 0) of
           Inl e \<Rightarrow> VError e
         | Inr v \<Rightarrow>
        (case py_int env v of
           Inl e \<Rightarrow> VError e
         | Inr uid \<Rightarrow>
           if uid \<notin> valid_user_ids then VSkipUser
           else if uid \<in> keys then VExists
           else
             (case py_float env (dict_get data ''balance'' (JFloat (Finite 0))) of
                Inl e \<Rightarrow> VError e
              | Inr bal \<Rightarrow> VStage uid)))))"

definition transaction_verdict ::
  "'dt env \<Rightarrow> int set \<Rightarrow> (json \<times> int) set \<Rightarrow> string \<Rightarrow> (json \<times> int) verdict" where
  "transaction_verdict env valid_user_ids keys raw =
     (let line = strip raw in
      if line = [] then VBlank
      else
        (case json_loads env line of
           None \<Rightarrow> VError JSONDecodeError
         | Some data \<Rightarrow>
        (case py_get data ''id'' (JStr []) of
           Inl e \<Rightarrow> VError e
         | Inr txn_id \<Rightarrow>
        (case py_int env (dict_get data ''user_id'' (JInt 0)) of
           Inl e \<Rightarrow> VError e
         | Inr uid \<Rightarrow>
           if uid \<notin> valid_user_ids then VSkipUser
           else if (txn_id, uid) \<in> keys then VExists
           else
             (case py_float env (dict_get data ''amount'' (JInt 0)) of
                Inl e \<Rightarrow> VError e
              | Inr amt \<Rightarrow> VStage (txn_id, uid))))))"

text \<open>The keys that a loop stages, in order, and the exception that ends it, if any.\<close>

fun run_plan ::
  "('k set \<Rightarrow> string \<Rightarrow> 'k verdict) \<Rightarrow> 'k set \<Rightarrow> string list \<Rightarrow> 'k list \<times> py_error option" where
  "run_plan f keys [] = ([], None)"
| "run_plan f keys (raw # rest) =
     (case f keys raw of
        VError e \<Rightarrow>
          if caught_by_line_handler e then run_plan f keys rest else ([], Some e)
      | VStage k \<Rightarrow> (case run_plan f (insert k keys) rest of (ks, r) \<Rightarrow> (k # ks, r))
      | _ \<Rightarrow> run_plan f keys rest)"

subsection \<open>Example inputs\<close>

text \<open>
  Lines of input files, with the value that \<^verbatim>\<open>json.loads\<close> returns on each, an
  environment in which every commit is accepted, and a world with the users 3 and 7 and
  empty wallet and transaction tables.
\<close>

definition line_w7 :: string where
  \<open>line_w7 = ''{"user_id": 7, "balance": 250.5}''\<close>

definition line_w99 :: string where
  \<open>line_w99 = ''{"user_id": 99, "balance": 10}''\<close>

definition line_null :: string where
  \<open>line_null = ''{"user_id": null}''\<close>

definition line_nouid :: string where
  \<open>line_nouid = ''{"balance": 5}''\<close>

definition line_uid0 :: string where
  \<open>line_uid0 = ''{"user_id": 0, "balance": 5}''\<close>

definition line_arr :: string where
  \<open>line_arr = ''[1, 2]''\<close>

definition line_ts :: string where
  \<open>line_ts = ''{"user_id": 7, "created_at": "2024-01-01T00:00:00", "last_updated": "soon"}''\<close>

definition line_t1 :: string where
  \<open>line_t1 = ''{"id": "TXN1", "user_id": 3, "amount": -50}''\<close>

definition line_t2 :: string where
  \<open>line_t2 = ''{"id": "TXN1", "user_id": 7, "amount": 20}''\<close>

definition example_loads :: "string \<Rightarrow> json option" where
  "example_loads = map_of
     [(line_w7, JObj [(''user_id'', JInt 7), (''balance'', JFloat (Finite (501 / 2)))]),
      (line_w99, JObj [(''user_id'', JInt 99), (''balance'', JInt 10)]),
      (line_null, JObj [(''user_id'', JNull)]),
      (line_nouid, JObj [(''balance'', JInt 5)]),
      (line_uid0, JObj [(''user_id'', JInt 0), (''balance'', JInt 5)]),
      (line_arr, JArr [JInt 1, JInt 2]),
      (line_ts, JObj [(''user_id'', JInt 7), (''created_at'', JStr ''2024-01-01T00:00:00''),
                      (''last_updated'', JStr ''soon'')]),
      (line_t1, JObj [(''id'', JStr ''TXN1''), (''user_id'', JInt 3), (''amount'', JInt (- 50))]),
      (line_t2, JObj [(''id'', JStr ''TXN1''), (''user_id'', JInt 7), (''amount'', JInt 20)])]"

definition example_env :: "nat env" where
  "example_env =
     \<lparr>json_loads = example_loads,
      fromisoformat = map_of [(''2024-01-01T00:00:00'', 1704067200)],
      utcnow = (\<lambda>n. 1800000000 + n),
      int_of_str = (\<lambda>s. None),
      float_of_str = (\<lambda>s. None),
      float_of_big_int = (\<lambda>n. None),
      commit_ok = (\<lambda>n. True)\<rparr>"

text \<open>The same environment with every commit rejected, and with the first commit rejected
  and the later ones accepted.\<close>

definition failing_env :: "nat env" where
  "failing_env = example_env\<lparr>commit_ok := (\<lambda>n. False)\<rparr>"

definition flaky_env :: "nat env" where
  "flaky_env = example_env\<lparr>commit_ok := (\<lambda>n. n \<noteq> 0)\<rparr>"

definition example_world :: "string list option \<Rightarrow> string list option \<Rightarrow> nat world" where
  "example_world wfile tfile =
     \<lparr>wallets_txt = wfile, transactions_txt = tfile, users = [3, 7],
      wallets = [], transactions = [], new_wallets = [], new_transactions = [],
      clock = 0, commits = 0, stdout = [], db_ops = []\<rparr>"

section \<open>Properties\<close>

lemmas example_defs =
  line_w7_def line_w99_def line_null_def line_nouid_def line_uid0_def line_arr_def line_ts_def
  line_t1_def line_t2_def example_loads_def example_env_def example_world_def

lemmas line_defs = wallet_line_def wallet_try_def transaction_line_def transaction_try_def
  strip_def py_isspace_def print_def db_call_def wallet_query_first_def
  transaction_query_first_def parse_timestamp_def or_utcnow_def datetime_utcnow_def
  session_add_wallet_def session_add_transaction_def

lemmas proc_defs = migrate_wallets_def migrate_transactions_def user_query_all_def
  session_commit_def session_rollback_def

subsection \<open>The clock and the session along one iteration\<close>

text \<open>
  Parsing a timestamp and \<^verbatim>\<open>x or datetime.utcnow()\<close> change nothing but the number of
  clock readings; an iteration of the wallet loop that stages a row went through every
  statement of the body.
\<close>

lemma parse_timestamp_clock:
  assumes "parse_timestamp env v w = (r, w')"
  shows "w' = w\<lparr>clock := clock w'\<rparr> \<and> clock w \<le> clock w'"
  using assms
  by (auto simp: parse_timestamp_def datetime_utcnow_def split: if_splits sum.splits)

lemma or_utcnow_clock:
  assumes "or_utcnow env x w = (t, w')"
  shows "w' = w\<lparr>clock := clock w'\<rparr> \<and> clock w \<le> clock w'"
  using assms
  by (auto simp: or_utcnow_def datetime_utcnow_def split: option.splits)

lemma parse_timestamp_frame:
  assumes "parse_timestamp env v w = (r, w')"
  shows "wallets w' = wallets w" "new_wallets w' = new_wallets w"
    "transactions w' = transactions w" "new_transactions w' = new_transactions w"
    "commits w' = commits w" "users w' = users w" "stdout w' = stdout w"
    "db_ops w' = db_ops w"
  using assms
  by (auto simp: parse_timestamp_def datetime_utcnow_def split: if_splits sum.splits)

lemma or_utcnow_frame:
  assumes "or_utcnow env x w = (t, w')"
  shows "wallets w' = wallets w" "new_wallets w' = new_wallets w"
    "transactions w' = transactions w" "new_transactions w' = new_transactions w"
    "commits w' = commits w" "users w' = users w" "stdout w' = stdout w"
    "db_ops w' = db_ops w"
  using assms
  by (auto simp: or_utcnow_def datetime_utcnow_def split: option.splits)

lemma wallet_try_staged:
  assumes "wallet_try env valid_user_ids (count, skipped, w) line = Inr (count', skipped', w')"
    and "new_wallets w' \<noteq> new_wallets w"
  shows "\<exists>data v uid created w2 updated w3 bal c w4 u w5.
           json_loads env line = Some data \<and>
           py_get data ''user_id'' (JInt 0) = Inr v \<and>
           py_int env v = Inr uid \<and> uid \<in> valid_user_ids \<and>
           find (\<lambda>x. user_id x = uid) (wallets w @ new_wallets w) = None \<and>
           parse_timestamp env (dict_get data ''created_at'' JNull)
             (db_call (QueryWallet uid) w) = (created, w2) \<and>
           parse_timestamp env (dict_get data ''last_updated'' JNull) w2 = (updated, w3) \<and>
           py_float env (dict_get data ''balance'' (JFloat (Finite 0))) = Inr bal \<and>
           or_utcnow env created w3 = (c, w4) \<and>
           or_utcnow env updated w4 = (u, w5) \<and>
           count' = count + 1 \<and> skipped' = skipped \<and>
           w' = print (OkWallet uid (dict_get data ''balance'' (JInt 0)))
                  (session_add_wallet
                     \<lparr>user_id = uid, balance = bal, created_at = c, last_updated = u\<rparr> w5)"
  using assms
  by (auto simp: wallet_try_def wallet_query_first_def print_def db_call_def
           split: option.splits sum.splits prod.splits if_splits)


lemma parse_timestamp_cases:
  assumes "parse_timestamp env v w = (r, w')"
  shows "(case datetime_fromisoformat env v of
            Inr d \<Rightarrow> r = Some d \<and> clock w' = clock w
          | Inl e \<Rightarrow> (r = None \<and> clock w' = clock w) \<or>
                     (r = Some (utcnow env (clock w)) \<and> clock w' = clock w + 1))"
  using assms
  by (cases v) (auto simp: parse_timestamp_def datetime_utcnow_def split: option.splits if_splits)

lemma or_utcnow_cases:
  assumes "or_utcnow env x w = (t, w')"
  shows "(case x of Some d \<Rightarrow> t = d \<and> clock w' = clock w
          | None \<Rightarrow> t = utcnow env (clock w) \<and> clock w' = clock w + 1)"
  using assms by (auto simp: or_utcnow_def datetime_utcnow_def split: option.splits)

subsection \<open>The loops follow the plan\<close>

text \<open>
  Each iteration does what its verdict says, and changes nothing else in the store; hence a
  loop stages the keys of \<open>run_plan\<close>, in order, counts them, and ends with the exception
  of \<open>run_plan\<close>, if any.
\<close>

lemma find_user_id_None:
  "(find (\<lambda>x. user_id x = uid) (wallets w @ new_wallets w) = None) = (uid \<notin> wallet_keys w)"
  by (auto simp: find_None_iff wallet_keys_def)

lemma same_store_refl: "same_store w w"
  by (simp add: same_store_def)

lemma same_store_trans: "same_store w w' \<Longrightarrow> same_store w' w'' \<Longrightarrow> same_store w w''"
  by (simp add: same_store_def)

lemma find_user_id_Some:
  "find (\<lambda>x. user_id x = uid) (wallets w @ new_wallets w) = Some y \<Longrightarrow> uid \<in> wallet_keys w"
  using find_user_id_None [of uid w] by auto

lemma parse_timestamp_world:
  assumes "parse_timestamp env v w = (r, w')"
  shows "\<exists>n. w' = w\<lparr>clock := n\<rparr>"
  by (rule exI [of _ "clock w'"]) (rule conjunct1 [OF parse_timestamp_clock [OF assms]])

lemma or_utcnow_world:
  assumes "or_utcnow env x w = (t, w')"
  shows "\<exists>n. w' = w\<lparr>clock := n\<rparr>"
  by (rule exI [of _ "clock w'"]) (rule conjunct1 [OF or_utcnow_clock [OF assms]])

lemma wallet_line_Inr:
  assumes "wallet_line env V (c, s, w) raw = Inr (c', s', w')"
  shows "same_store w w' \<and> new_transactions w' = new_transactions w \<and>
     (case wallet_verdict env V (wallet_keys w) raw of
        VStage k \<Rightarrow> c' = c + 1 \<and> (\<exists>x. new_wallets w' = new_wallets w @ [x] \<and> user_id x = k)
      | VError e \<Rightarrow> caught_by_line_handler e \<and> c' = c \<and> new_wallets w' = new_wallets w
      | _ \<Rightarrow> c' = c \<and> new_wallets w' = new_wallets w)"
  using assms
  unfolding wallet_line_def wallet_try_def wallet_verdict_def Let_def wallet_query_first_def
  by (auto simp: find_user_id_None same_store_def print_def db_call_def session_add_wallet_def
        split: if_splits option.splits sum.splits prod.splits
        dest!: parse_timestamp_world or_utcnow_world find_user_id_Some)

lemma wallet_line_Inl:
  assumes "wallet_line env V (c, s, w) raw = Inl (e, w')"
  shows "same_store w w' \<and> new_transactions w' = new_transactions w \<and>
     new_wallets w' = new_wallets w \<and>
     wallet_verdict env V (wallet_keys w) raw = VError e \<and> \<not> caught_by_line_handler e"
  using assms
  unfolding wallet_line_def wallet_try_def wallet_verdict_def Let_def wallet_query_first_def
  by (auto simp: find_user_id_None same_store_def print_def db_call_def session_add_wallet_def
        split: if_splits option.splits sum.splits prod.splits
        dest!: parse_timestamp_world or_utcnow_world find_user_id_Some)


lemma wallet_keys_same:
  "same_store w w' \<Longrightarrow> new_wallets w' = new_wallets w \<Longrightarrow> wallet_keys w' = wallet_keys w"
  by (simp add: wallet_keys_def same_store_def)

lemma wallet_keys_staged:
  "same_store w w' \<Longrightarrow> new_wallets w' = new_wallets w @ [x] \<Longrightarrow>
     wallet_keys w' = insert (user_id x) (wallet_keys w)"
  by (auto simp: wallet_keys_def same_store_def)

lemma wallet_loop_plan:
  assumes "run_plan (wallet_verdict env V) (wallet_keys w) ls = (ks, r)"
  shows "\<exists>s' w'.
           wallet_loop env V (c, s, w) ls =
             (case r of None \<Rightarrow> Inr (c + length ks, s', w') | Some e \<Rightarrow> Inl (e, w')) \<and>
           map user_id (new_wallets w') = map user_id (new_wallets w) @ ks \<and>
           same_store w w' \<and> new_transactions w' = new_transactions w"
  using assms
proof (induction ls arbitrary: c s w ks r)
  case Nil
  then show ?case
    by (auto simp: same_store_refl)
next
  case (Cons raw rest)
  let ?f = "wallet_verdict env V"
  show ?case
  proof (cases "wallet_line env V (c, s, w) raw")
    case (Inl a)
    obtain e w1 where a: "a = (e, w1)"
      by (cases a)
    from wallet_line_Inl [OF Inl [unfolded a]] Cons.prems
    have "ks = []" "r = Some e" "same_store w w1" "new_transactions w1 = new_transactions w"
      "new_wallets w1 = new_wallets w"
      by auto
    with Inl a show ?thesis
      by auto
  next
    case (Inr b)
    obtain c1 s1 w1 where b: "b = (c1, s1, w1)"
      by (cases b)
    note line = wallet_line_Inr [OF Inr [unfolded b]]
    then have st: "same_store w w1" and nt: "new_transactions w1 = new_transactions w"
      by simp_all
    have "\<exists>ks'. run_plan ?f (wallet_keys w1) rest = (ks', r) \<and>
            c1 + length ks' = c + length ks \<and>
            map user_id (new_wallets w1) @ ks' = map user_id (new_wallets w) @ ks"
    proof (cases "?f (wallet_keys w) raw")
      case (VStage k)
      with line obtain x where x: "c1 = c + 1" "new_wallets w1 = new_wallets w @ [x]"
        "user_id x = k"
        by auto
      obtain ks' where ks': "run_plan ?f (insert k (wallet_keys w)) rest = (ks', r)"
        "ks = k # ks'"
        using Cons.prems VStage by (auto split: prod.splits)
      have "wallet_keys w1 = insert k (wallet_keys w)"
        using wallet_keys_staged [OF st x(2)] x(3) by simp
      with ks' x show ?thesis
        by simp
    next
      case (VError e)
      with line have "c1 = c" "new_wallets w1 = new_wallets w" "caught_by_line_handler e"
        by auto
      with Cons.prems VError wallet_keys_same [OF st] show ?thesis
        by simp
    qed (use line Cons.prems wallet_keys_same [OF st] in auto)
    then obtain ks' where ks': "run_plan ?f (wallet_keys w1) rest = (ks', r)"
      "c1 + length ks' = c + length ks"
      "map user_id (new_wallets w1) @ ks' = map user_id (new_wallets w) @ ks"
      by blast
    from Cons.IH [OF ks'(1), of c1 s1] obtain s' w' where
      "wallet_loop env V (c1, s1, w1) rest =
         (case r of None \<Rightarrow> Inr (c1 + length ks', s', w') | Some e \<Rightarrow> Inl (e, w'))"
      "map user_id (new_wallets w') = map user_id (new_wallets w1) @ ks'"
      "same_store w1 w'" "new_transactions w' = new_transactions w1"
      by blast
    with Inr b ks'(2,3) nt same_store_trans [OF st] show ?thesis
      by (auto split: option.splits)
  qed
qed


lemma find_transaction_None:
  "(find (\<lambda>x. transaction_id x = tid \<and> txn_user_id x = uid)
      (transactions w @ new_transactions w) = None) = ((tid, uid) \<notin> transaction_keys w)"
  by (auto simp: find_None_iff transaction_keys_def)

lemma find_transaction_Some:
  "find (\<lambda>x. transaction_id x = tid \<and> txn_user_id x = uid)
      (transactions w @ new_transactions w) = Some y \<Longrightarrow> (tid, uid) \<in> transaction_keys w"
  using find_transaction_None [of tid uid w] by auto

lemma transaction_line_Inr:
  assumes "transaction_line env V (c, s, w) raw = Inr (c', s', w')"
  shows "same_store w w' \<and> new_wallets w' = new_wallets w \<and>
     (case transaction_verdict env V (transaction_keys w) raw of
        VStage k \<Rightarrow>
          c' = c + 1 \<and>
          (\<exists>x. new_transactions w' = new_transactions w @ [x] \<and>
               (transaction_id x, txn_user_id x) = k)
      | VError e \<Rightarrow>
          caught_by_line_handler e \<and> c' = c \<and> new_transactions w' = new_transactions w
      | _ \<Rightarrow> c' = c \<and> new_transactions w' = new_transactions w)"
  using assms
  unfolding transaction_line_def transaction_try_def transaction_verdict_def Let_def
    transaction_query_first_def
  by (auto simp: find_transaction_None same_store_def print_def db_call_def
        session_add_transaction_def
        split: if_splits option.splits sum.splits prod.splits
        dest!: parse_timestamp_world or_utcnow_world find_transaction_Some)

lemma transaction_line_Inl:
  assumes "transaction_line env V (c, s, w) raw = Inl (e, w')"
  shows "same_store w w' \<and> new_wallets w' = new_wallets w \<and>
     new_transactions w' = new_transactions w \<and>
     transaction_verdict env V (transaction_keys w) raw = VError e \<and>
     \<not> caught_by_line_handler e"
  using assms
  unfolding transaction_line_def transaction_try_def transaction_verdict_def Let_def
    transaction_query_first_def
  by (auto simp: find_transaction_None same_store_def print_def db_call_def
        session_add_transaction_def
        split: if_splits option.splits sum.splits prod.splits
        dest!: parse_timestamp_world or_utcnow_world find_transaction_Some)

lemma transaction_keys_same:
  "same_store w w' \<Longrightarrow> new_transactions w' = new_transactions w \<Longrightarrow>
     transaction_keys w' = transaction_keys w"
  by (simp add: transaction_keys_def same_store_def)

lemma transaction_keys_staged:
  "same_store w w' \<Longrightarrow> new_transactions w' = new_transactions w @ [x] \<Longrightarrow>
     transaction_keys w' = insert (transaction_id x, txn_user_id x) (transaction_keys w)"
  by (auto simp: transaction_keys_def same_store_def)

lemma transaction_loop_plan:
  assumes "run_plan (transaction_verdict env V) (transaction_keys w) ls = (ks, r)"
  shows "\<exists>s' w'.
           transaction_loop env V (c, s, w) ls =
             (case r of None \<Rightarrow> Inr (c + length ks, s', w') | Some e \<Rightarrow> Inl (e, w')) \<and>
           map (\<lambda>x. (transaction_id x, txn_user_id x)) (new_transactions w') =
             map (\<lambda>x. (transaction_id x, txn_user_id x)) (new_transactions w) @ ks \<and>
           same_store w w' \<and> new_wallets w' = new_wallets w"
  using assms
proof (induction ls arbitrary: c s w ks r)
  case Nil
  then show ?case
    by (auto simp: same_store_refl)
next
  case (Cons raw rest)
  let ?f = "transaction_verdict env V"
  let ?key = "\<lambda>x. (transaction_id x, txn_user_id x)"
  show ?case
  proof (cases "transaction_line env V (c, s, w) raw")
    case (Inl a)
    obtain e w1 where a: "a = (e, w1)"
      by (cases a)
    from transaction_line_Inl [OF Inl [unfolded a]] Cons.prems
    have "ks = []" "r = Some e" "same_store w w1" "new_transactions w1 = new_transactions w"
      "new_wallets w1 = new_wallets w"
      by auto
    with Inl a show ?thesis
      by auto
  next
    case (Inr b)
    obtain c1 s1 w1 where b: "b = (c1, s1, w1)"
      by (cases b)
    note line = transaction_line_Inr [OF Inr [unfolded b]]
    then have st: "same_store w w1" and nw: "new_wallets w1 = new_wallets w"
      by simp_all
    have "\<exists>ks'. run_plan ?f (transaction_keys w1) rest = (ks', r) \<and>
            c1 + length ks' = c + length ks \<and>
            map ?key (new_transactions w1) @ ks' = map ?key (new_transactions w) @ ks"
    proof (cases "?f (transaction_keys w) raw")
      case (VStage k)
      with line obtain x where x: "c1 = c + 1" "new_transactions w1 = new_transactions w @ [x]"
        "?key x = k"
        by auto
      obtain ks' where ks': "run_plan ?f (insert k (transaction_keys w)) rest = (ks', r)"
        "ks = k # ks'"
        using Cons.prems VStage by (auto split: prod.splits)
      have "transaction_keys w1 = insert k (transaction_keys w)"
        using transaction_keys_staged [OF st x(2)] x(3) by simp
      with ks' x show ?thesis
        by simp
    next
      case (VError e)
      with line have "c1 = c" "new_transactions w1 = new_transactions w"
        "caught_by_line_handler e"
        by auto
      with Cons.prems VError transaction_keys_same [OF st] show ?thesis
        by simp
    qed (use line Cons.prems transaction_keys_same [OF st] in auto)
    then obtain ks' where ks': "run_plan ?f (transaction_keys w1) rest = (ks', r)"
      "c1 + length ks' = c + length ks"
      "map ?key (new_transactions w1) @ ks' = map ?key (new_transactions w) @ ks"
      by blast
    from Cons.IH [OF ks'(1), of c1 s1] obtain s' w' where
      "transaction_loop env V (c1, s1, w1) rest =
         (case r of None \<Rightarrow> Inr (c1 + length ks', s', w') | Some e \<Rightarrow> Inl (e, w'))"
      "map ?key (new_transactions w') = map ?key (new_transactions w1) @ ks'"
      "same_store w1 w'" "new_wallets w' = new_wallets w1"
      by blast
    with Inr b ks'(2,3) nw same_store_trans [OF st] show ?thesis
      by (auto split: option.splits)
  qed
qed

subsection \<open>Plans\<close>

text \<open>
  A key is staged only when it does not exist yet, so the keys of a plan are distinct and
  new; once they exist, the plan of the same lines stages nothing. Each sub-procedure is
  described by the plan of its file.
\<close>

lemma wallet_verdict_fresh:
  "wallet_verdict env V K raw = VStage k \<Longrightarrow> k \<notin> K"
  by (auto simp: wallet_verdict_def Let_def split: if_splits option.splits sum.splits)

lemma wallet_verdict_mono:
  "K \<subseteq> K' \<Longrightarrow>
     wallet_verdict env V K' raw = wallet_verdict env V K raw \<or>
     wallet_verdict env V K' raw = VExists"
  by (auto simp: wallet_verdict_def Let_def split: if_splits option.splits sum.splits)

lemma transaction_verdict_fresh:
  "transaction_verdict env V K raw = VStage k \<Longrightarrow> k \<notin> K"
  by (auto simp: transaction_verdict_def Let_def split: if_splits option.splits sum.splits)

lemma transaction_verdict_mono:
  "K \<subseteq> K' \<Longrightarrow>
     transaction_verdict env V K' raw = transaction_verdict env V K raw \<or>
     transaction_verdict env V K' raw = VExists"
  by (auto simp: transaction_verdict_def Let_def split: if_splits option.splits sum.splits)

lemma run_plan_distinct:
  assumes fresh: "\<And>K raw k. f K raw = VStage k \<Longrightarrow> k \<notin> K"
    and "run_plan f K ls = (ks, r)"
  shows "distinct ks \<and> set ks \<inter> K = {}"
  using assms(2)
proof (induction ls arbitrary: K ks r)
  case Nil
  then show ?case by simp
next
  case (Cons raw rest)
  show ?case
  proof (cases "f K raw")
    case (VStage k)
    then obtain ks' where ks': "run_plan f (insert k K) rest = (ks', r)" "ks = k # ks'"
      using Cons.prems by (auto split: prod.splits)
    from Cons.IH [OF ks'(1)] fresh [OF VStage] ks'(2) show ?thesis
      by auto
  next
    case (VError e)
    with Cons show ?thesis
      by (cases "caught_by_line_handler e") auto
  qed (use Cons in auto)
qed

lemma run_plan_again:
  assumes fresh: "\<And>K raw k. f K raw = VStage k \<Longrightarrow> k \<notin> K"
    and mono: "\<And>K K' raw. K \<subseteq> K' \<Longrightarrow> f K' raw = f K raw \<or> f K' raw = VExists"
    and "run_plan f K ls = (ks, None)"
    and "K \<union> set ks \<subseteq> K'"
  shows "run_plan f K' ls = ([], None)"
  using assms(3,4)
proof (induction ls arbitrary: K ks)
  case Nil
  then show ?case by simp
next
  case (Cons raw rest)
  have sub: "K \<subseteq> K'"
    using Cons.prems(2) by simp
  show ?case
  proof (cases "f K raw")
    case (VStage k)
    then obtain ks' where ks': "run_plan f (insert k K) rest = (ks', None)" "ks = k # ks'"
      using Cons.prems by (auto split: prod.splits)
    have "k \<in> K'"
      using Cons.prems(2) ks'(2) by simp
    with fresh [of K' raw k] mono [OF sub, of raw] VStage have "f K' raw = VExists"
      by auto
    moreover have "run_plan f K' rest = ([], None)"
      using Cons.IH [OF ks'(1)] Cons.prems(2) ks'(2) by simp
    ultimately show ?thesis
      by simp
  next
    case (VError e)
    with Cons.prems have c: "caught_by_line_handler e" and "run_plan f K rest = (ks, None)"
      by (auto split: if_splits)
    from Cons.IH [OF this(2) Cons.prems(2)] mono [OF sub, of raw] VError c show ?thesis
      by auto
  next
    case VBlank
    with Cons.prems have "run_plan f K rest = (ks, None)"
      by simp
    from Cons.IH [OF this Cons.prems(2)] mono [OF sub, of raw] VBlank show ?thesis
      by auto
  next
    case VSkipUser
    with Cons.prems have "run_plan f K rest = (ks, None)"
      by simp
    from Cons.IH [OF this Cons.prems(2)] mono [OF sub, of raw] VSkipUser show ?thesis
      by auto
  next
    case VExists
    with Cons.prems have "run_plan f K rest = (ks, None)"
      by simp
    from Cons.IH [OF this Cons.prems(2)] mono [OF sub, of raw] VExists show ?thesis
      by auto
  qed
qed


lemma migrate_wallets_plan:
  assumes "wallets_txt a = Some f"
    and "run_plan (wallet_verdict env (set (users a))) (wallet_keys a) f = (ks, e)"
  shows "\<exists>a'. users a' = users a \<and> wallets_txt a' = wallets_txt a \<and>
     transactions_txt a' = transactions_txt a \<and>
     (case e of
        Some x \<Rightarrow>
          migrate_wallets env a = (Inl x, a') \<and> wallets a' = wallets a \<and>
          transactions a' = transactions a \<and> commits a' = commits a \<and>
          new_transactions a' = new_transactions a \<and>
          map user_id (new_wallets a') = map user_id (new_wallets a) @ ks
      | None \<Rightarrow>
          migrate_wallets env a = (Inr (length ks), a') \<and> commits a' = commits a + 1 \<and>
          new_wallets a' = [] \<and> new_transactions a' = [] \<and>
          (if commit_ok env (commits a)
           then (\<exists>staged. wallets a' = wallets a @ staged \<and>
                   map user_id staged = map user_id (new_wallets a) @ ks) \<and>
                transactions a' = transactions a @ new_transactions a
           else wallets a' = wallets a \<and> transactions a' = transactions a))"
proof -
  let ?a1 = "db_call QueryUsers a"
  have k: "wallet_keys ?a1 = wallet_keys a"
    by (simp add: wallet_keys_def db_call_def)
  from wallet_loop_plan [of env "set (users a)" ?a1 f ks e 0 0] assms(2) [folded k]
  obtain s' a2 where
    loop: "wallet_loop env (set (users a)) (0, 0, ?a1) f =
             (case e of None \<Rightarrow> Inr (0 + length ks, s', a2) | Some x \<Rightarrow> Inl (x, a2))"
    and staged: "map user_id (new_wallets a2) = map user_id (new_wallets ?a1) @ ks"
    and store: "same_store ?a1 a2" and nt: "new_transactions a2 = new_transactions ?a1"
    by blast
  show ?thesis
  proof (cases e)
    case (Some x)
    with loop assms(1) staged store nt show ?thesis
      by (auto simp: migrate_wallets_def user_query_all_def same_store_def db_call_def
            intro!: exI [of _ a2])
  next
    case None
    show ?thesis
    proof (cases "commit_ok env (commits a)")
      case True
      with None loop assms(1) staged store nt show ?thesis
        by (auto simp: migrate_wallets_def user_query_all_def same_store_def db_call_def
              session_commit_def print_def)
    next
      case False
      with None loop assms(1) staged store nt show ?thesis
        by (auto simp: migrate_wallets_def user_query_all_def same_store_def db_call_def
              session_commit_def session_rollback_def print_def)
    qed
  qed
qed

lemma migrate_transactions_plan:
  assumes "transactions_txt a = Some f"
    and "run_plan (transaction_verdict env (set (users a))) (transaction_keys a) f = (ks, e)"
  shows "\<exists>a'. users a' = users a \<and> wallets_txt a' = wallets_txt a \<and>
     transactions_txt a' = transactions_txt a \<and>
     (case e of
        Some x \<Rightarrow>
          migrate_transactions env a = (Inl x, a') \<and> wallets a' = wallets a \<and>
          transactions a' = transactions a \<and> commits a' = commits a \<and>
          new_wallets a' = new_wallets a \<and>
          map (\<lambda>x. (transaction_id x, txn_user_id x)) (new_transactions a') =
            map (\<lambda>x. (transaction_id x, txn_user_id x)) (new_transactions a) @ ks
      | None \<Rightarrow>
          migrate_transactions env a = (Inr (length ks), a') \<and> commits a' = commits a + 1 \<and>
          new_wallets a' = [] \<and> new_transactions a' = [] \<and>
          (if commit_ok env (commits a)
           then (\<exists>staged. transactions a' = transactions a @ staged \<and>
                   map (\<lambda>x. (transaction_id x, txn_user_id x)) staged =
                     map (\<lambda>x. (transaction_id x, txn_user_id x)) (new_transactions a) @ ks) \<and>
                wallets a' = wallets a @ new_wallets a
           else wallets a' = wallets a \<and> transactions a' = transactions a))"
proof -
  let ?a1 = "db_call QueryUsers a"
  have k: "transaction_keys ?a1 = transaction_keys a"
    by (simp add: transaction_keys_def db_call_def)
  from transaction_loop_plan [of env "set (users a)" ?a1 f ks e 0 0] assms(2) [folded k]
  obtain s' a2 where
    loop: "transaction_loop env (set (users a)) (0, 0, ?a1) f =
             (case e of None \<Rightarrow> Inr (0 + length ks, s', a2) | Some x \<Rightarrow> Inl (x, a2))"
    and staged: "map (\<lambda>x. (transaction_id x, txn_user_id x)) (new_transactions a2) =
                   map (\<lambda>x. (transaction_id x, txn_user_id x)) (new_transactions ?a1) @ ks"
    and store: "same_store ?a1 a2" and nw: "new_wallets a2 = new_wallets ?a1"
    by blast
  show ?thesis
  proof (cases e)
    case (Some x)
    with loop assms(1) staged store nw show ?thesis
      by (auto simp: migrate_transactions_def user_query_all_def same_store_def db_call_def
            intro!: exI [of _ a2])
  next
    case None
    show ?thesis
    proof (cases "commit_ok env (commits a)")
      case True
      with None loop assms(1) staged store nw show ?thesis
        by (auto simp: migrate_transactions_def user_query_all_def same_store_def db_call_def
              session_commit_def print_def)
    next
      case False
      with None loop assms(1) staged store nw show ?thesis
        by (auto simp: migrate_transactions_def user_query_all_def same_store_def db_call_def
              session_commit_def session_rollback_def print_def)
    qed
  qed
qed

subsection \<open>A missing input file\<close>

text \<open>
  C7. When its input file does not exist, a sub-procedure returns the count 0 and raises
  nothing; it prints its skip message and leaves everything else as it was: no call
  reaches the storage layer (\<open>db_ops\<close> is unchanged), no row is staged or committed.
\<close>

theorem missing_file_returns_zero:
  "(wallets_txt w = None \<longrightarrow>
      migrate_wallets env w = (Inr 0, w\<lparr>stdout := stdout w @ [SkipNoWalletFile]\<rparr>)) \<and>
   (transactions_txt w = None \<longrightarrow>
      migrate_transactions env w =
        (Inr 0, w\<lparr>stdout := stdout w @ [SkipNoTransactionFile]\<rparr>))"
  by (simp add: migrate_wallets_def migrate_transactions_def print_def)

theorem missing_file_returns_zero_witness:
  "wallets_txt (example_world None None) = None \<and>
   transactions_txt (example_world None None) = None \<and>
   fst (migrate_wallets example_env (example_world None None)) = Inr 0 \<and>
   db_ops (snd (migrate_wallets example_env (example_world None None))) = [] \<and>
   fst (migrate_transactions example_env (example_world None None)) = Inr 0 \<and>
   db_ops (snd (migrate_transactions example_env (example_world None None))) = []"
  using missing_file_returns_zero [of "example_world None None" example_env]
  by (simp add: example_world_def)

subsection \<open>Lines that refer to an unknown user\<close>

text \<open>
  C3. A wallet line that parses, and whose user id is extracted as an integer that is not in
  the set of valid user ids, stages no wallet: the iteration only increments \<open>skipped\<close> and
  prints the skip message, \<open>count\<close> and the session are unchanged, and the loop goes on with
  the next line.
\<close>

theorem wallet_unknown_user_skipped:
  assumes "strip raw \<noteq> []"
    and "json_loads env (strip raw) = Some data"
    and "py_get data ''user_id'' (JInt 0) = Inr v"
    and "py_int env v = Inr uid"
    and "uid \<notin> valid_user_ids"
  shows "wallet_line env valid_user_ids (count, skipped, w) raw =
           Inr (count, skipped + 1, w\<lparr>stdout := stdout w @ [SkipWalletUserNotFound uid]\<rparr>) \<and>
         wallet_loop env valid_user_ids (count, skipped, w) (raw # rest) =
           wallet_loop env valid_user_ids
             (count, skipped + 1, w\<lparr>stdout := stdout w @ [SkipWalletUserNotFound uid]\<rparr>) rest"
  using assms by (simp add: wallet_line_def wallet_try_def print_def)

theorem wallet_unknown_user_skipped_witness:
  "wallet_line example_env {3, 7} (0, 0, example_world (Some [line_w99, line_w7]) None) line_w99 =
     Inr (0, 1, (example_world (Some [line_w99, line_w7]) None)\<lparr>stdout := [SkipWalletUserNotFound 99]\<rparr>) \<and>
   wallet_loop example_env {3, 7} (0, 0, example_world (Some [line_w99, line_w7]) None) [line_w99, line_w7] =
   wallet_loop example_env {3, 7}
     (0, 1, (example_world (Some [line_w99, line_w7]) None)\<lparr>stdout := [SkipWalletUserNotFound 99]\<rparr>) [line_w7]"
  using wallet_unknown_user_skipped [of line_w99 example_env
      "JObj [(''user_id'', JInt 99), (''balance'', JInt 10)]" "JInt 99" 99 "{3, 7}"
      0 0 "example_world (Some [line_w99, line_w7]) None" "[line_w7]"]
  by (simp add: example_defs strip_def py_isspace_def)

subsection \<open>A line without a user id\<close>

lemma dict_get_skip_user_id:
  "k \<noteq> ''user_id'' \<Longrightarrow>
     dict_get (JObj ((''user_id'', v) # kvs)) k d = dict_get (JObj kvs) k d"
  by simp

lemma py_get_skip_user_id:
  "k \<noteq> ''user_id'' \<Longrightarrow>
     py_get (JObj ((''user_id'', v) # kvs)) k d = py_get (JObj kvs) k d"
  by simp

lemma wallet_try_explicit_zero:
  assumes "json_loads env line = Some (JObj kvs)"
    and "map_of kvs ''user_id'' = None"
    and "json_loads env line0 = Some (JObj ((''user_id'', JInt 0) # kvs))"
  shows "wallet_try env valid_user_ids st line = wallet_try env valid_user_ids st line0"
proof -
  have a: "py_get (JObj kvs) ''user_id'' (JInt 0) = Inr (JInt 0)"
    using assms(2) by simp
  have b: "py_get (JObj ((''user_id'', JInt 0) # kvs)) ''user_id'' (JInt 0) = Inr (JInt 0)"
    by simp
  show ?thesis
    unfolding wallet_try_def assms(1) assms(3) option.case a b
    by (simp only: dict_get_skip_user_id list.inject char.inject simp_thms list.distinct)
qed

lemma transaction_try_explicit_zero:
  assumes "json_loads env line = Some (JObj kvs)"
    and "map_of kvs ''user_id'' = None"
    and "json_loads env line0 = Some (JObj ((''user_id'', JInt 0) # kvs))"
  shows "transaction_try env valid_user_ids st line = transaction_try env valid_user_ids st line0"
proof -
  have a: "dict_get (JObj kvs) ''user_id'' (JInt 0) = JInt 0"
    using assms(2) by simp
  have b: "dict_get (JObj ((''user_id'', JInt 0) # kvs)) ''user_id'' (JInt 0) = JInt 0"
    by simp
  show ?thesis
    unfolding transaction_try_def assms(1) assms(3) option.case a b
    by (simp only: dict_get_skip_user_id py_get_skip_user_id list.inject char.inject
          simp_thms list.distinct)
qed


text \<open>
  C10. A line that parses to a JSON object without a \<open>user_id\<close> key is handled, in both
  importers, exactly as the same object with \<open>user_id\<close> 0; when 0 is not a valid user id the
  line is a referential skip (\<open>skipped\<close> incremented, the skip message for user 0 printed),
  not a parse error, and nothing is staged.
\<close>

theorem missing_user_id_is_user_zero:
  assumes "json_loads env line = Some (JObj kvs)"
    and "map_of kvs ''user_id'' = None"
  shows "(json_loads env line0 = Some (JObj ((''user_id'', JInt 0) # kvs)) \<longrightarrow>
            wallet_try env valid_user_ids st line = wallet_try env valid_user_ids st line0 \<and>
            transaction_try env valid_user_ids st line = transaction_try env valid_user_ids st line0) \<and>
         (0 \<notin> valid_user_ids \<and> strip raw = line \<and> line \<noteq> [] \<longrightarrow>
            wallet_line env valid_user_ids (count, skipped, w) raw =
              Inr (count, skipped + 1, w\<lparr>stdout := stdout w @ [SkipWalletUserNotFound 0]\<rparr>) \<and>
            transaction_line env valid_user_ids (count, skipped, w) raw =
              Inr (count, skipped + 1,
                   w\<lparr>stdout := stdout w @
                      [SkipTransactionUserNotFound 0 (dict_get (JObj kvs) ''id'' (JStr []))]\<rparr>))"
proof (intro conjI impI)
  assume l0: "json_loads env line0 = Some (JObj ((''user_id'', JInt 0) # kvs))"
  show "wallet_try env valid_user_ids st line = wallet_try env valid_user_ids st line0"
    using assms l0 by (rule wallet_try_explicit_zero)
  show "transaction_try env valid_user_ids st line = transaction_try env valid_user_ids st line0"
    using assms l0 by (rule transaction_try_explicit_zero)
next
  assume h: "0 \<notin> valid_user_ids \<and> strip raw = line \<and> line \<noteq> []"
  then show "wallet_line env valid_user_ids (count, skipped, w) raw =
              Inr (count, skipped + 1, w\<lparr>stdout := stdout w @ [SkipWalletUserNotFound 0]\<rparr>)"
    using assms by (simp add: wallet_line_def wallet_try_def print_def)
  from h show "transaction_line env valid_user_ids (count, skipped, w) raw =
              Inr (count, skipped + 1,
                   w\<lparr>stdout := stdout w @
                      [SkipTransactionUserNotFound 0 (dict_get (JObj kvs) ''id'' (JStr []))]\<rparr>)"
    using assms by (simp add: transaction_line_def transaction_try_def print_def)
qed

theorem missing_user_id_is_user_zero_witness:
  "wallet_try example_env {3, 7} (0, 0, example_world None None) line_nouid =
     wallet_try example_env {3, 7} (0, 0, example_world None None) line_uid0 \<and>
   transaction_try example_env {3, 7} (0, 0, example_world None None) line_nouid =
     transaction_try example_env {3, 7} (0, 0, example_world None None) line_uid0 \<and>
   wallet_line example_env {3, 7} (0, 0, example_world None None) line_nouid =
     Inr (0, 1, (example_world None None)\<lparr>stdout := [SkipWalletUserNotFound 0]\<rparr>) \<and>
   transaction_line example_env {3, 7} (0, 0, example_world None None) line_nouid =
     Inr (0, 1, (example_world None None)\<lparr>stdout := [SkipTransactionUserNotFound 0 (JStr [])]\<rparr>)"
  using missing_user_id_is_user_zero [of example_env line_nouid "[(''balance'', JInt 5)]"
      line_uid0 "{3, 7}" "(0, 0, example_world None None)" line_nouid 0 0
      "example_world None None"]
  by (simp add: example_defs strip_def py_isspace_def)

subsection \<open>Exceptions that the line handler does not catch\<close>

text \<open>
  C6. The handler of each loop catches \<^verbatim>\<open>JSONDecodeError\<close> and \<^verbatim>\<open>ValueError\<close> only.
  On the file \<^verbatim>\<open>{"user_id": 7, "balance": 250.5}\<close>, \<^verbatim>\<open>{"user_id": null}\<close>,
  \<^verbatim>\<open>{"user_id": 99, "balance": 10}\<close> the coercion \<^verbatim>\<open>int(None)\<close> of the second line
  raises \<^verbatim>\<open>TypeError\<close>, which leaves \<^verbatim>\<open>migrate_wallets\<close>: the third line is never
  read, no error line is printed and nothing is committed. The same line ends
  \<^verbatim>\<open>migrate_transactions\<close>, and a line that is a JSON array ends \<^verbatim>\<open>migrate_wallets\<close>
  with \<^verbatim>\<open>AttributeError\<close>.
\<close>

theorem type_error_escapes:
  "fst (migrate_wallets example_env
          (example_world (Some [line_w7, line_null, line_w99]) None)) = Inl TypeError \<and>
   stdout (snd (migrate_wallets example_env
          (example_world (Some [line_w7, line_null, line_w99]) None))) =
     [OkWallet 7 (JFloat (Finite 250.5))] \<and>
   wallets (snd (migrate_wallets example_env
          (example_world (Some [line_w7, line_null, line_w99]) None))) = [] \<and>
   fst (migrate_transactions example_env
          (example_world None (Some [line_null, line_t1]))) = Inl TypeError \<and>
   fst (migrate_wallets example_env
          (example_world (Some [line_arr, line_w7]) None)) = Inl AttributeError"
  by (simp add: example_defs proc_defs line_defs)

subsection \<open>The scenario of user 7\<close>

text \<open>
  C9. The line \<^verbatim>\<open>{"user_id": 7, "balance": 250.5}\<close>, with user 7 valid and no wallet for
  user 7 committed or staged: the iteration increments \<open>count\<close> by one and stages exactly one
  wallet, with user id 7, balance 250.5, and \<open>created_at\<close> and \<open>last_updated\<close> each a reading
  of the clock taken while the line is imported (the two \<^verbatim>\<open>datetime.utcnow()\<close> calls of
  lines 78 and 79, one after the other). When the file holds this line only and the commit
  is accepted, \<^verbatim>\<open>migrate_wallets\<close> returns 1 and the wallet table has gained exactly this
  row.
\<close>

theorem scenario_wallet_user_7:
  assumes "strip raw = line_w7"
    and "json_loads env line_w7 =
           Some (JObj [(''user_id'', JInt 7), (''balance'', JFloat (Finite 250.5))])"
    and "7 \<in> valid_user_ids"
    and "\<forall>x \<in> set (wallets w @ new_wallets w). user_id x \<noteq> 7"
  shows "wallet_line env valid_user_ids (count, skipped, w) raw =
           Inr (count + 1, skipped,
                w\<lparr>new_wallets := new_wallets w @
                     [\<lparr>user_id = 7, balance = Finite 250.5,
                       created_at = utcnow env (clock w),
                       last_updated = utcnow env (clock w + 1)\<rparr>],
                  clock := clock w + 2,
                  stdout := stdout w @ [OkWallet 7 (JFloat (Finite 250.5))],
                  db_ops := db_ops w @ [QueryWallet 7, AddWallet]\<rparr>) \<and>
         (wallets_txt w = Some [raw] \<and> valid_user_ids = set (users w) \<and>
          new_wallets w = [] \<and> commit_ok env (commits w) \<longrightarrow>
            fst (migrate_wallets env w) = Inr 1 \<and>
            wallets (snd (migrate_wallets env w)) =
              wallets w @
                [\<lparr>user_id = 7, balance = Finite 250.5,
                  created_at = utcnow env (clock w),
                  last_updated = utcnow env (clock w + 1)\<rparr>])"
proof -
  let ?row = "\<lparr>user_id = 7, balance = Finite 250.5, created_at = utcnow env (clock w),
                last_updated = utcnow env (clock w + 1)\<rparr>"
  have nonempty: "line_w7 \<noteq> []"
    by (simp add: line_w7_def)
  have line: "wallet_line env valid_user_ids (c, s, v) raw =
           Inr (c + 1, s,
                v\<lparr>new_wallets := new_wallets v @
                     [\<lparr>user_id = 7, balance = Finite 250.5,
                       created_at = utcnow env (clock v),
                       last_updated = utcnow env (clock v + 1)\<rparr>],
                  clock := clock v + 2,
                  stdout := stdout v @ [OkWallet 7 (JFloat (Finite 250.5))],
                  db_ops := db_ops v @ [QueryWallet 7, AddWallet]\<rparr>)"
    if "\<forall>x \<in> set (wallets v @ new_wallets v). user_id x \<noteq> 7" for c s v
  proof -
    have "find (\<lambda>x. user_id x = 7) (wallets v @ new_wallets v) = None"
      using that by (auto simp: find_None_iff)
    then show ?thesis
      using assms(1-3) nonempty
      by (simp add: wallet_line_def wallet_try_def wallet_query_first_def parse_timestamp_def
            or_utcnow_def datetime_utcnow_def session_add_wallet_def print_def db_call_def)
  qed
  have proc: "fst (migrate_wallets env w) = Inr 1 \<and>
              wallets (snd (migrate_wallets env w)) = wallets w @ [?row]"
    if h: "wallets_txt w = Some [raw] \<and> valid_user_ids = set (users w) \<and>
           new_wallets w = [] \<and> commit_ok env (commits w)"
  proof -
    have "\<forall>x \<in> set (wallets (db_call QueryUsers w) @ new_wallets (db_call QueryUsers w)).
            user_id x \<noteq> 7"
      using assms(4) by (simp add: db_call_def)
    from line [OF this, of 0 0] h show ?thesis
      by (simp add: migrate_wallets_def user_query_all_def session_commit_def print_def
            db_call_def)
  qed
  from line [OF assms(4)] proc show ?thesis
    by blast
qed

theorem scenario_wallet_user_7_witness:
  "fst (migrate_wallets example_env (example_world (Some [line_w7 @ [CHR 0x0A]]) None)) = Inr 1 \<and>
   wallets (snd (migrate_wallets example_env (example_world (Some [line_w7 @ [CHR 0x0A]]) None))) =
     [\<lparr>user_id = 7, balance = Finite 250.5, created_at = 1800000000,
       last_updated = 1800000001\<rparr>]"
  using scenario_wallet_user_7 [of "line_w7 @ [CHR 0x0A]" example_env "{3, 7}"
      "example_world (Some [line_w7 @ [CHR 0x0A]]) None" 0 0]
  by (simp add: example_defs strip_def py_isspace_def)

subsection \<open>Timestamps of a wallet\<close>

text \<open>
  C5. For every wallet that an iteration stages, each of the two timestamps is decided by its
  own field alone: when \<^verbatim>\<open>datetime.fromisoformat\<close> accepts the field of the line, the
  value stored is the parsed one; when the field is missing or is not accepted (not a str,
  or not an ISO-8601 timestamp), the value stored is a reading of the clock taken during
  this iteration. Nothing relates the two fields: one can parse while the other defaults.
\<close>

theorem timestamp_fallback_per_field:
  assumes "wallet_try env valid_user_ids (count, skipped, w) line = Inr (count', skipped', w')"
    and "json_loads env line = Some data"
    and "new_wallets w' \<noteq> new_wallets w"
  shows "\<exists>x. new_wallets w' = new_wallets w @ [x] \<and>
      (case datetime_fromisoformat env (dict_get data ''created_at'' JNull) of
         Inr d \<Rightarrow> created_at x = d
       | Inl e \<Rightarrow> \<exists>k. clock w \<le> k \<and> k < clock w' \<and> created_at x = utcnow env k) \<and>
      (case datetime_fromisoformat env (dict_get data ''last_updated'' JNull) of
         Inr d \<Rightarrow> last_updated x = d
       | Inl e \<Rightarrow> \<exists>k. clock w \<le> k \<and> k < clock w' \<and> last_updated x = utcnow env k)"
proof -
  from wallet_try_staged [OF assms(1) assms(3)] assms(2)
  obtain uid created w2 updated w3 bal c w4 u w5 where
    p1: "parse_timestamp env (dict_get data ''created_at'' JNull)
           (db_call (QueryWallet uid) w) = (created, w2)" and
    p2: "parse_timestamp env (dict_get data ''last_updated'' JNull) w2 = (updated, w3)" and
    o1: "or_utcnow env created w3 = (c, w4)" and
    o2: "or_utcnow env updated w4 = (u, w5)" and
    w': "w' = print (OkWallet uid (dict_get data ''balance'' (JInt 0)))
                  (session_add_wallet
                     \<lparr>user_id = uid, balance = bal, created_at = c, last_updated = u\<rparr> w5)"
    by auto
  let ?x = "\<lparr>user_id = uid, balance = bal, created_at = c, last_updated = u\<rparr>"
  note c1 = parse_timestamp_cases [OF p1]
  note c2 = parse_timestamp_cases [OF p2]
  note c3 = or_utcnow_cases [OF o1]
  note c4 = or_utcnow_cases [OF o2]
  have k0: "clock (db_call (QueryWallet uid) w) = clock w"
    by (simp add: db_call_def)
  have k12: "clock w \<le> clock w2" "clock w2 \<le> clock w3" "clock w3 \<le> clock w4"
    "clock w4 \<le> clock w5"
    using parse_timestamp_clock [OF p1] parse_timestamp_clock [OF p2]
      or_utcnow_clock [OF o1] or_utcnow_clock [OF o2] k0 by simp_all
  have k5: "clock w' = clock w5"
    by (simp add: w' print_def session_add_wallet_def db_call_def)
  have nw: "new_wallets w5 = new_wallets w"
    using parse_timestamp_frame [OF p1] parse_timestamp_frame [OF p2]
      or_utcnow_frame [OF o1] or_utcnow_frame [OF o2]
    by (simp add: db_call_def)
  have staged: "new_wallets w' = new_wallets w @ [?x]"
    by (simp add: w' print_def session_add_wallet_def db_call_def nw)
  have created: "(case datetime_fromisoformat env (dict_get data ''created_at'' JNull) of
         Inr d \<Rightarrow> created_at ?x = d
       | Inl e \<Rightarrow> \<exists>k. clock w \<le> k \<and> k < clock w' \<and> created_at ?x = utcnow env k)"
  proof (cases "datetime_fromisoformat env (dict_get data ''created_at'' JNull)")
    case (Inr d)
    with c1 c3 show ?thesis by simp
  next
    case (Inl e)
    with c1 c3 k0 k12 k5
    have "created_at ?x = utcnow env (clock w) \<and> clock w < clock w' \<or>
          created_at ?x = utcnow env (clock w3) \<and> clock w \<le> clock w3 \<and> clock w3 < clock w'"
      by (auto split: option.splits)
    then have "\<exists>k. clock w \<le> k \<and> k < clock w' \<and> created_at ?x = utcnow env k"
      by (metis order_refl)
    with Inl show ?thesis by simp
  qed
  have updated: "(case datetime_fromisoformat env (dict_get data ''last_updated'' JNull) of
         Inr d \<Rightarrow> last_updated ?x = d
       | Inl e \<Rightarrow> \<exists>k. clock w \<le> k \<and> k < clock w' \<and> last_updated ?x = utcnow env k)"
  proof (cases "datetime_fromisoformat env (dict_get data ''last_updated'' JNull)")
    case (Inr d)
    with c2 c4 show ?thesis by simp
  next
    case (Inl e)
    with c2 c4 k0 k12 k5
    have "last_updated ?x = utcnow env (clock w2) \<and> clock w \<le> clock w2 \<and> clock w2 < clock w' \<or>
          last_updated ?x = utcnow env (clock w4) \<and> clock w \<le> clock w4 \<and> clock w4 < clock w'"
      by (auto split: option.splits)
    then have "\<exists>k. clock w \<le> k \<and> k < clock w' \<and> last_updated ?x = utcnow env k"
      by metis
    with Inl show ?thesis by simp
  qed
  from staged created updated show ?thesis
    by blast
qed

theorem timestamp_fallback_per_field_witness:
  "wallet_try example_env {3, 7} (0, 0, example_world None None) line_ts =
     Inr (1, 0,
          (example_world None None)
            \<lparr>new_wallets := [\<lparr>user_id = 7, balance = Finite 0, created_at = 1704067200,
                               last_updated = 1800000000\<rparr>],
              clock := 1, stdout := [OkWallet 7 (JInt 0)],
              db_ops := [QueryWallet 7, AddWallet]\<rparr>) \<and>
   datetime_fromisoformat example_env (JStr ''2024-01-01T00:00:00'') = Inr 1704067200 \<and>
   datetime_fromisoformat example_env (JStr ''soon'') = Inl ValueError \<and>
   utcnow example_env 0 = 1800000000"
  using timestamp_fallback_per_field [of example_env "{3, 7}" 0 0 "example_world None None"
      line_ts 1 0
      "(example_world None None)
            \<lparr>new_wallets := [\<lparr>user_id = 7, balance = Finite 0, created_at = 1704067200,
                               last_updated = 1800000000\<rparr>],
              clock := 1, stdout := [OkWallet 7 (JInt 0)],
              db_ops := [QueryWallet 7, AddWallet]\<rparr>"
      "JObj [(''user_id'', JInt 7), (''created_at'', JStr ''2024-01-01T00:00:00''),
             (''last_updated'', JStr ''soon'')]"]
  by (simp add: example_defs line_defs)

subsection \<open>The key of the duplicate check of transactions\<close>

lemma transaction_line_stages:
  assumes "strip r \<noteq> []"
    and "json_loads env (strip r) = Some d"
    and "py_get d ''id'' (JStr []) = Inr tid"
    and "py_int env (dict_get d ''user_id'' (JInt 0)) = Inr u"
    and "u \<in> valid_user_ids"
    and "find (\<lambda>x. transaction_id x = tid \<and> txn_user_id x = u)
           (transactions v @ new_transactions v) = None"
    and "py_float env (dict_get d ''amount'' (JInt 0)) = Inr a"
  shows "\<exists>v' x. transaction_line env valid_user_ids (c, s, v) r = Inr (c + 1, s, v') \<and>
           new_transactions v' = new_transactions v @ [x] \<and>
           transaction_id x = tid \<and> txn_user_id x = u \<and> amount x = a \<and>
           transactions v' = transactions v \<and>
           wallets v' = wallets v \<and> new_wallets v' = new_wallets v \<and>
           commits v' = commits v \<and> users v' = users v \<and>
           stdout v' = stdout v @ [OkTransaction tid u (dict_get d ''amount'' (JInt 0))]"
proof -
  obtain ts v2 where p: "parse_timestamp env (dict_get d ''timestamp'' JNull)
      (db_call (QueryTransaction tid u) v) = (ts, v2)"
    by (cases "parse_timestamp env (dict_get d ''timestamp'' JNull)
      (db_call (QueryTransaction tid u) v)")
  obtain t v3 where q: "or_utcnow env ts v2 = (t, v3)"
    by (cases "or_utcnow env ts v2")
  show ?thesis
    using assms p q parse_timestamp_frame [OF p] or_utcnow_frame [OF q]
    by (simp add: transaction_line_def transaction_try_def transaction_query_first_def
          print_def session_add_transaction_def db_call_def)
qed

lemma transaction_pair_loop:
  assumes "strip r1 \<noteq> []" and "strip r2 \<noteq> []"
    and "json_loads env (strip r1) = Some d1" and "json_loads env (strip r2) = Some d2"
    and "py_get d1 ''id'' (JStr []) = Inr tid" and "py_get d2 ''id'' (JStr []) = Inr tid"
    and "py_int env (dict_get d1 ''user_id'' (JInt 0)) = Inr u1"
    and "py_int env (dict_get d2 ''user_id'' (JInt 0)) = Inr u2"
    and "u1 \<noteq> u2" and "u1 \<in> valid_user_ids" and "u2 \<in> valid_user_ids"
    and "\<forall>x \<in> set (transactions w @ new_transactions w).
           \<not> (transaction_id x = tid \<and> (txn_user_id x = u1 \<or> txn_user_id x = u2))"
    and "py_float env (dict_get d1 ''amount'' (JInt 0)) = Inr a1"
    and "py_float env (dict_get d2 ''amount'' (JInt 0)) = Inr a2"
  shows "\<exists>w' x1 x2.
           transaction_loop env valid_user_ids (count, skipped, w) [r1, r2] =
             Inr (count + 2, skipped, w') \<and>
           new_transactions w' = new_transactions w @ [x1, x2] \<and>
           transaction_id x1 = tid \<and> txn_user_id x1 = u1 \<and>
           transaction_id x2 = tid \<and> txn_user_id x2 = u2 \<and>
           transactions w' = transactions w \<and> commits w' = commits w \<and>
           stdout w' = stdout w @
             [OkTransaction tid u1 (dict_get d1 ''amount'' (JInt 0)),
              OkTransaction tid u2 (dict_get d2 ''amount'' (JInt 0))]"
proof -
  have f1: "find (\<lambda>x. transaction_id x = tid \<and> txn_user_id x = u1)
              (transactions w @ new_transactions w) = None"
    using assms(12) by (auto simp: find_None_iff)
  from transaction_line_stages [OF assms(1) assms(3) assms(5) assms(7) assms(10) f1 assms(13),
      of count skipped]
  obtain v x1 where
    l1: "transaction_line env valid_user_ids (count, skipped, w) r1 = Inr (count + 1, skipped, v)"
    and n1: "new_transactions v = new_transactions w @ [x1]"
    and k1: "transaction_id x1 = tid" "txn_user_id x1 = u1"
    and t1: "transactions v = transactions w" "commits v = commits w"
    and s1: "stdout v = stdout w @ [OkTransaction tid u1 (dict_get d1 ''amount'' (JInt 0))]"
    by blast
  have f2: "find (\<lambda>x. transaction_id x = tid \<and> txn_user_id x = u2)
              (transactions v @ new_transactions v) = None"
    using assms(12) assms(9) k1 by (auto simp: find_None_iff n1 t1)
  from transaction_line_stages [OF assms(2) assms(4) assms(6) assms(8) assms(11) f2 assms(14),
      of "count + 1" skipped]
  obtain w' x2 where
    l2: "transaction_line env valid_user_ids (count + 1, skipped, v) r2 =
           Inr (count + 1 + 1, skipped, w')"
    and n2: "new_transactions w' = new_transactions v @ [x2]"
    and k2: "transaction_id x2 = tid" "txn_user_id x2 = u2"
    and t2: "transactions w' = transactions v" "commits w' = commits v"
    and s2: "stdout w' = stdout v @ [OkTransaction tid u2 (dict_get d2 ''amount'' (JInt 0))]"
    by blast
  have "transaction_loop env valid_user_ids (count, skipped, w) [r1, r2] =
          Inr (count + 2, skipped, w')"
    using l1 l2 by simp
  with n1 n2 k1 k2 s1 s2 t1 t2 show ?thesis
    by simp
qed


text \<open>
  C4. The existence check of the transaction importer compares the pair (transaction id,
  user id). Two lines with the same transaction id and different valid user ids, neither
  pair being in the table or staged, and both amounts accepted by \<^verbatim>\<open>float\<close>: both rows
  are staged, \<open>count\<close> grows by two, two \<^verbatim>\<open>[OK]\<close> lines and no duplicate skip are
  printed; when the file holds these two lines and the commit is accepted,
  \<^verbatim>\<open>migrate_transactions\<close> returns 2 and both rows are in the table.
\<close>

theorem transaction_key_is_pair:
  assumes "strip r1 \<noteq> []" and "strip r2 \<noteq> []"
    and "json_loads env (strip r1) = Some d1" and "json_loads env (strip r2) = Some d2"
    and "py_get d1 ''id'' (JStr []) = Inr tid" and "py_get d2 ''id'' (JStr []) = Inr tid"
    and "py_int env (dict_get d1 ''user_id'' (JInt 0)) = Inr u1"
    and "py_int env (dict_get d2 ''user_id'' (JInt 0)) = Inr u2"
    and "u1 \<noteq> u2" and "u1 \<in> valid_user_ids" and "u2 \<in> valid_user_ids"
    and "\<forall>x \<in> set (transactions w @ new_transactions w).
           \<not> (transaction_id x = tid \<and> (txn_user_id x = u1 \<or> txn_user_id x = u2))"
    and "py_float env (dict_get d1 ''amount'' (JInt 0)) = Inr a1"
    and "py_float env (dict_get d2 ''amount'' (JInt 0)) = Inr a2"
  shows "(\<exists>w' x1 x2.
            transaction_loop env valid_user_ids (count, skipped, w) [r1, r2] =
              Inr (count + 2, skipped, w') \<and>
            new_transactions w' = new_transactions w @ [x1, x2] \<and>
            transaction_id x1 = tid \<and> txn_user_id x1 = u1 \<and>
            transaction_id x2 = tid \<and> txn_user_id x2 = u2 \<and>
            stdout w' = stdout w @
              [OkTransaction tid u1 (dict_get d1 ''amount'' (JInt 0)),
               OkTransaction tid u2 (dict_get d2 ''amount'' (JInt 0))]) \<and>
         (transactions_txt w = Some [r1, r2] \<and> valid_user_ids = set (users w) \<and>
          commit_ok env (commits w) \<longrightarrow>
            (\<exists>x1 x2.
               fst (migrate_transactions env w) = Inr 2 \<and>
               transactions (snd (migrate_transactions env w)) =
                 transactions w @ new_transactions w @ [x1, x2] \<and>
               transaction_id x1 = tid \<and> txn_user_id x1 = u1 \<and>
               transaction_id x2 = tid \<and> txn_user_id x2 = u2))"
proof (intro conjI impI)
  from transaction_pair_loop [OF assms, of count skipped]
  show "\<exists>w' x1 x2.
            transaction_loop env valid_user_ids (count, skipped, w) [r1, r2] =
              Inr (count + 2, skipped, w') \<and>
            new_transactions w' = new_transactions w @ [x1, x2] \<and>
            transaction_id x1 = tid \<and> txn_user_id x1 = u1 \<and>
            transaction_id x2 = tid \<and> txn_user_id x2 = u2 \<and>
            stdout w' = stdout w @
              [OkTransaction tid u1 (dict_get d1 ''amount'' (JInt 0)),
               OkTransaction tid u2 (dict_get d2 ''amount'' (JInt 0))]"
    by blast
next
  assume h: "transactions_txt w = Some [r1, r2] \<and> valid_user_ids = set (users w) \<and>
          commit_ok env (commits w)"
  let ?w1 = "db_call QueryUsers w"
  have a12: "\<forall>x \<in> set (transactions ?w1 @ new_transactions ?w1).
           \<not> (transaction_id x = tid \<and> (txn_user_id x = u1 \<or> txn_user_id x = u2))"
    using assms(12) by (simp add: db_call_def)
  from transaction_pair_loop [OF assms(1-11) a12 assms(13,14), of 0 0]
  obtain w' x1 x2 where
    l: "transaction_loop env valid_user_ids (0, 0, ?w1) [r1, r2] = Inr (2, 0, w')"
    and n: "new_transactions w' = new_transactions ?w1 @ [x1, x2]"
    and k: "transaction_id x1 = tid" "txn_user_id x1 = u1"
      "transaction_id x2 = tid" "txn_user_id x2 = u2"
    and t: "transactions w' = transactions ?w1" "commits w' = commits ?w1"
    by auto
  have "fst (migrate_transactions env w) = Inr 2 \<and>
        transactions (snd (migrate_transactions env w)) =
          transactions w @ new_transactions w @ [x1, x2]"
    using h l n t
    by (simp add: migrate_transactions_def user_query_all_def session_commit_def print_def
          db_call_def del: transaction_loop.simps)
  with k show "\<exists>x1 x2.
               fst (migrate_transactions env w) = Inr 2 \<and>
               transactions (snd (migrate_transactions env w)) =
                 transactions w @ new_transactions w @ [x1, x2] \<and>
               transaction_id x1 = tid \<and> txn_user_id x1 = u1 \<and>
               transaction_id x2 = tid \<and> txn_user_id x2 = u2"
    by blast
qed

theorem transaction_key_is_pair_witness:
  "(case transaction_loop example_env {3, 7}
           (0, 0, example_world None (Some [line_t1, line_t2])) [line_t1, line_t2] of
      Inl e \<Rightarrow> False
    | Inr (c, s, w') \<Rightarrow>
        c = 2 \<and>
        map (\<lambda>x. (transaction_id x, txn_user_id x, amount x)) (new_transactions w') =
          [(JStr ''TXN1'', 3, Finite (- 50)), (JStr ''TXN1'', 7, Finite 20)] \<and>
        stdout w' = [OkTransaction (JStr ''TXN1'') 3 (JInt (- 50)),
                     OkTransaction (JStr ''TXN1'') 7 (JInt 20)]) \<and>
   fst (migrate_transactions example_env (example_world None (Some [line_t1, line_t2]))) =
     Inr 2 \<and>
   map (\<lambda>x. (transaction_id x, txn_user_id x, amount x))
     (transactions
        (snd (migrate_transactions example_env
                (example_world None (Some [line_t1, line_t2]))))) =
     [(JStr ''TXN1'', 3, Finite (- 50)), (JStr ''TXN1'', 7, Finite 20)]"
  using transaction_key_is_pair [of line_t1 line_t2 example_env
      "JObj [(''id'', JStr ''TXN1''), (''user_id'', JInt 3), (''amount'', JInt (- 50))]"
      "JObj [(''id'', JStr ''TXN1''), (''user_id'', JInt 7), (''amount'', JInt 20)]"
      "JStr ''TXN1''" 3 7 "{3, 7}" "example_world None (Some [line_t1, line_t2])"
      "Finite (- 50)" "Finite 20" 0 0]
  by (simp add: example_defs line_defs proc_defs)

subsection \<open>At most one wallet per user\<close>

text \<open>
  C8. When no two wallets, committed or staged, have the same user id, the same holds after
  \<^verbatim>\<open>migrate_wallets\<close>, whatever the file holds and however the sub-procedure ends (return
  or exception, commit accepted or rejected): the existence check sees the rows staged
  earlier in the same run, so a user id that occurs on several lines is staged once.
\<close>

theorem one_wallet_per_user:
  assumes "distinct (map user_id (wallets w @ new_wallets w))"
    and "migrate_wallets env w = (r, w')"
  shows "distinct (map user_id (wallets w' @ new_wallets w'))"
proof (cases "wallets_txt w")
  case None
  with assms(2) have "wallets w' = wallets w" "new_wallets w' = new_wallets w"
    by (auto simp: migrate_wallets_def print_def)
  with assms(1) show ?thesis
    by simp
next
  case (Some f)
  obtain ks e where plan:
    "run_plan (wallet_verdict env (set (users w))) (wallet_keys w) f = (ks, e)"
    by (cases "run_plan (wallet_verdict env (set (users w))) (wallet_keys w) f")
  have "distinct ks \<and> set ks \<inter> wallet_keys w = {}"
    by (rule run_plan_distinct [OF _ plan]) (rule wallet_verdict_fresh)
  then have all: "distinct (map user_id (wallets w @ new_wallets w) @ ks)"
    using assms(1) by (auto simp: wallet_keys_def)
  from migrate_wallets_plan [OF Some plan] assms(2) all show ?thesis
    by (cases e; cases "commit_ok env (commits w)") auto
qed


theorem one_wallet_per_user_witness:
  "distinct (map user_id (wallets (example_world (Some [line_w7, line_ts]) None) @
                          new_wallets (example_world (Some [line_w7, line_ts]) None))) \<and>
   fst (migrate_wallets example_env (example_world (Some [line_w7, line_ts]) None)) = Inr 1 \<and>
   map user_id
     (wallets (snd (migrate_wallets example_env (example_world (Some [line_w7, line_ts]) None))))
     = [7] \<and>
   stdout (snd (migrate_wallets example_env (example_world (Some [line_w7, line_ts]) None))) =
     [OkWallet 7 (JFloat (Finite 250.5)), SkipWalletExists 7, OkWalletsCommitted 1]"
  using one_wallet_per_user [of "example_world (Some [line_w7, line_ts]) None" example_env
      "fst (migrate_wallets example_env (example_world (Some [line_w7, line_ts]) None))"
      "snd (migrate_wallets example_env (example_world (Some [line_w7, line_ts]) None))"]
  by (simp add: example_defs line_defs proc_defs)

subsection \<open>A commit that fails\<close>

lemma wallet_loop_counts:
  assumes "wallet_loop env V (c, s, w) ls = Inr (c', s', w')"
  shows "c' = c + (length (new_wallets w') - length (new_wallets w)) \<and>
         length (new_wallets w) \<le> length (new_wallets w') \<and>
         same_store w w' \<and> new_transactions w' = new_transactions w"
proof -
  obtain ks e where plan: "run_plan (wallet_verdict env V) (wallet_keys w) ls = (ks, e)"
    by (cases "run_plan (wallet_verdict env V) (wallet_keys w) ls")
  from wallet_loop_plan [OF plan, of c s] assms obtain s2 w2 where
    "Inr (c', s', w') = (case e of None \<Rightarrow> Inr (c + length ks, s2, w2) | Some x \<Rightarrow> Inl (x, w2))"
    "map user_id (new_wallets w2) = map user_id (new_wallets w) @ ks"
    "same_store w w2" "new_transactions w2 = new_transactions w"
    by auto
  then have "c' = c + length ks" "w' = w2"
    "length (new_wallets w2) = length (new_wallets w) + length ks"
    "same_store w w2" "new_transactions w2 = new_transactions w"
    using length_map [of user_id "new_wallets w2"]
    by (auto split: option.splits)
  then show ?thesis
    by simp
qed

lemma transaction_loop_counts:
  assumes "transaction_loop env V (c, s, w) ls = Inr (c', s', w')"
  shows "c' = c + (length (new_transactions w') - length (new_transactions w)) \<and>
         length (new_transactions w) \<le> length (new_transactions w') \<and>
         same_store w w' \<and> new_wallets w' = new_wallets w"
proof -
  obtain ks e where plan:
    "run_plan (transaction_verdict env V) (transaction_keys w) ls = (ks, e)"
    by (cases "run_plan (transaction_verdict env V) (transaction_keys w) ls")
  from transaction_loop_plan [OF plan, of c s] assms obtain s2 w2 where
    "Inr (c', s', w') = (case e of None \<Rightarrow> Inr (c + length ks, s2, w2) | Some x \<Rightarrow> Inl (x, w2))"
    "map (\<lambda>x. (transaction_id x, txn_user_id x)) (new_transactions w2) =
       map (\<lambda>x. (transaction_id x, txn_user_id x)) (new_transactions w) @ ks"
    "same_store w w2" "new_wallets w2 = new_wallets w"
    by auto
  then have "c' = c + length ks" "w' = w2"
    "length (new_transactions w2) = length (new_transactions w) + length ks"
    "same_store w w2" "new_wallets w2 = new_wallets w"
    using length_map [of "\<lambda>x. (transaction_id x, txn_user_id x)" "new_transactions w2"]
    by (auto split: option.splits)
  then show ?thesis
    by simp
qed


text \<open>
  C2. When the commit at the end of the loop is rejected (the loop attempts no commit, so
  this is the commit with number \<open>commits w\<close>), a sub-procedure that returns has rolled the
  whole batch back: the committed tables are those before the run and nothing is
  left staged; the last line printed is the commit error; and the value returned is still
  the count of the loop, which is the number of rows that the loop staged (so it can be
  positive while no row persists).
\<close>

theorem commit_failure_rolls_back:
  assumes "\<not> commit_ok env (commits w)"
  shows "(wallets_txt w = Some f \<and> migrate_wallets env w = (Inr n, w') \<longrightarrow>
            wallets w' = wallets w \<and> transactions w' = transactions w \<and>
            new_wallets w' = [] \<and> new_transactions w' = [] \<and>
            last (stdout w') = ErrorWalletsCommit \<and>
            (\<exists>s w2. wallet_loop env (set (users w)) (0, 0, db_call QueryUsers w) f =
                       Inr (n, s, w2) \<and>
                    length (new_wallets w2) = length (new_wallets w) + n)) \<and>
         (transactions_txt w = Some g \<and> migrate_transactions env w = (Inr m, w'') \<longrightarrow>
            wallets w'' = wallets w \<and> transactions w'' = transactions w \<and>
            new_wallets w'' = [] \<and> new_transactions w'' = [] \<and>
            last (stdout w'') = ErrorTransactionsCommit \<and>
            (\<exists>s w2. transaction_loop env (set (users w)) (0, 0, db_call QueryUsers w) g =
                       Inr (m, s, w2) \<and>
                    length (new_transactions w2) = length (new_transactions w) + m))"
proof (intro conjI impI)
  assume h: "wallets_txt w = Some f \<and> migrate_wallets env w = (Inr n, w')"
  then obtain c s w2 where
    loop: "wallet_loop env (set (users w)) (0, 0, db_call QueryUsers w) f = Inr (c, s, w2)"
    by (cases "wallet_loop env (set (users w)) (0, 0, db_call QueryUsers w) f")
       (auto simp: migrate_wallets_def user_query_all_def)
  note k = wallet_loop_counts [OF loop]
  then have cm: "commits w2 = commits w" "wallets w2 = wallets w"
    "transactions w2 = transactions w"
    by (simp_all add: same_store_def db_call_def)
  from h loop assms cm have res: "n = c"
    "w' = print ErrorWalletsCommit
            (session_rollback (db_call Commit (w2\<lparr>commits := commits w2 + 1\<rparr>)))"
    by (auto simp: migrate_wallets_def user_query_all_def session_commit_def)
  from res(2) cm show "wallets w' = wallets w" "transactions w' = transactions w"
    "new_wallets w' = []" "new_transactions w' = []" "last (stdout w') = ErrorWalletsCommit"
    by (simp_all add: print_def session_rollback_def db_call_def)
  from k res(1) loop
  show "\<exists>s w2. wallet_loop env (set (users w)) (0, 0, db_call QueryUsers w) f = Inr (n, s, w2) \<and>
          length (new_wallets w2) = length (new_wallets w) + n"
    by (auto simp: db_call_def)
next
  assume h: "transactions_txt w = Some g \<and> migrate_transactions env w = (Inr m, w'')"
  then obtain c s w2 where
    loop: "transaction_loop env (set (users w)) (0, 0, db_call QueryUsers w) g = Inr (c, s, w2)"
    by (cases "transaction_loop env (set (users w)) (0, 0, db_call QueryUsers w) g")
       (auto simp: migrate_transactions_def user_query_all_def)
  note k = transaction_loop_counts [OF loop]
  then have cm: "commits w2 = commits w" "wallets w2 = wallets w"
    "transactions w2 = transactions w"
    by (simp_all add: same_store_def db_call_def)
  from h loop assms cm have res: "m = c"
    "w'' = print ErrorTransactionsCommit
            (session_rollback (db_call Commit (w2\<lparr>commits := commits w2 + 1\<rparr>)))"
    by (auto simp: migrate_transactions_def user_query_all_def session_commit_def)
  from res(2) cm show "wallets w'' = wallets w" "transactions w'' = transactions w"
    "new_wallets w'' = []" "new_transactions w'' = []"
    "last (stdout w'') = ErrorTransactionsCommit"
    by (simp_all add: print_def session_rollback_def db_call_def)
  from k res(1) loop
  show "\<exists>s w2. transaction_loop env (set (users w)) (0, 0, db_call QueryUsers w) g =
                  Inr (m, s, w2) \<and>
          length (new_transactions w2) = length (new_transactions w) + m"
    by (auto simp: db_call_def)
qed


theorem commit_failure_rolls_back_witness:
  "\<not> commit_ok failing_env (commits (example_world (Some [line_w7]) (Some [line_t1]))) \<and>
   fst (migrate_wallets failing_env (example_world (Some [line_w7]) (Some [line_t1]))) =
     Inr 1 \<and>
   wallets (snd (migrate_wallets failing_env
                   (example_world (Some [line_w7]) (Some [line_t1])))) = [] \<and>
   stdout (snd (migrate_wallets failing_env
                  (example_world (Some [line_w7]) (Some [line_t1])))) =
     [OkWallet 7 (JFloat (Finite 250.5)), ErrorWalletsCommit] \<and>
   fst (migrate_transactions failing_env (example_world (Some [line_w7]) (Some [line_t1]))) =
     Inr 1 \<and>
   transactions (snd (migrate_transactions failing_env
                        (example_world (Some [line_w7]) (Some [line_t1])))) = [] \<and>
   stdout (snd (migrate_transactions failing_env
                  (example_world (Some [line_w7]) (Some [line_t1])))) =
     [OkTransaction (JStr ''TXN1'') 3 (JInt (- 50)), ErrorTransactionsCommit]"
  using commit_failure_rolls_back [of failing_env
      "example_world (Some [line_w7]) (Some [line_t1])" "[line_w7]" 1
      "snd (migrate_wallets failing_env (example_world (Some [line_w7]) (Some [line_t1])))"
      "[line_t1]" 1
      "snd (migrate_transactions failing_env
              (example_world (Some [line_w7]) (Some [line_t1])))"]
  by (simp add: failing_env_def example_defs line_defs proc_defs)

subsection \<open>Running the job twice\<close>

text \<open>What a sub-procedure leaves as it was.\<close>

lemma migrate_wallets_frame:
  assumes "migrate_wallets env a = (r, a')"
    and "new_wallets a = []" and "new_transactions a = []"
  shows "users a' = users a \<and> wallets_txt a' = wallets_txt a \<and>
     transactions_txt a' = transactions_txt a \<and> transactions a' = transactions a \<and>
     commits a \<le> commits a' \<and>
     (case r of
        Inl x \<Rightarrow> wallets a' = wallets a \<and> commits a' = commits a
      | Inr n \<Rightarrow> new_wallets a' = [] \<and> new_transactions a' = [] \<and>
          (wallets_txt a \<noteq> None \<longrightarrow> commits a' = commits a + 1))"
proof (cases "wallets_txt a")
  case None
  with assms show ?thesis
    by (auto simp: migrate_wallets_def print_def)
next
  case (Some f)
  obtain ks e where plan:
    "run_plan (wallet_verdict env (set (users a))) (wallet_keys a) f = (ks, e)"
    by (cases "run_plan (wallet_verdict env (set (users a))) (wallet_keys a) f")
  from migrate_wallets_plan [OF Some plan] assms Some show ?thesis
    by (cases e; cases "commit_ok env (commits a)") auto
qed

lemma migrate_transactions_frame:
  assumes "migrate_transactions env a = (r, a')"
    and "new_wallets a = []" and "new_transactions a = []"
  shows "users a' = users a \<and> wallets_txt a' = wallets_txt a \<and>
     transactions_txt a' = transactions_txt a \<and> wallets a' = wallets a \<and>
     commits a \<le> commits a' \<and>
     (case r of
        Inl x \<Rightarrow> transactions a' = transactions a \<and> commits a' = commits a
      | Inr n \<Rightarrow> new_wallets a' = [] \<and> new_transactions a' = [] \<and>
          (transactions_txt a \<noteq> None \<longrightarrow> commits a' = commits a + 1))"
proof (cases "transactions_txt a")
  case None
  with assms show ?thesis
    by (auto simp: migrate_transactions_def print_def)
next
  case (Some f)
  obtain ks e where plan:
    "run_plan (transaction_verdict env (set (users a))) (transaction_keys a) f = (ks, e)"
    by (cases "run_plan (transaction_verdict env (set (users a))) (transaction_keys a) f")
  from migrate_transactions_plan [OF Some plan] assms Some show ?thesis
    by (cases e; cases "commit_ok env (commits a)") auto
qed

text \<open>A sub-procedure that raised raises again from a store with the same keys.\<close>

lemma migrate_wallets_raises_again:
  assumes "migrate_wallets env a = (Inl x, a')"
    and "wallets_txt b = wallets_txt a" and "users b = users a"
    and "wallet_keys b = wallet_keys a"
  shows "\<exists>b'. migrate_wallets env b = (Inl x, b') \<and> wallets b' = wallets b \<and>
           transactions b' = transactions b"
proof (cases "wallets_txt a")
  case None
  with assms(1) show ?thesis
    by (simp add: migrate_wallets_def)
next
  case (Some f)
  obtain ks e where plan:
    "run_plan (wallet_verdict env (set (users a))) (wallet_keys a) f = (ks, e)"
    by (cases "run_plan (wallet_verdict env (set (users a))) (wallet_keys a) f")
  from migrate_wallets_plan [OF Some plan] assms(1) have e: "e = Some x"
    by (cases e) auto
  have fb: "wallets_txt b = Some f"
    using Some assms(2) by simp
  have pb: "run_plan (wallet_verdict env (set (users b))) (wallet_keys b) f = (ks, Some x)"
    using plan e assms(3,4) by simp
  from migrate_wallets_plan [OF fb pb] show ?thesis
    by auto
qed

lemma migrate_transactions_raises_again:
  assumes "migrate_transactions env a = (Inl x, a')"
    and "transactions_txt b = transactions_txt a" and "users b = users a"
    and "transaction_keys b = transaction_keys a"
  shows "\<exists>b'. migrate_transactions env b = (Inl x, b') \<and> wallets b' = wallets b \<and>
           transactions b' = transactions b"
proof (cases "transactions_txt a")
  case None
  with assms(1) show ?thesis
    by (simp add: migrate_transactions_def)
next
  case (Some f)
  obtain ks e where plan:
    "run_plan (transaction_verdict env (set (users a))) (transaction_keys a) f = (ks, e)"
    by (cases "run_plan (transaction_verdict env (set (users a))) (transaction_keys a) f")
  from migrate_transactions_plan [OF Some plan] assms(1) have e: "e = Some x"
    by (cases e) auto
  have fb: "transactions_txt b = Some f"
    using Some assms(2) by simp
  have pb: "run_plan (transaction_verdict env (set (users b))) (transaction_keys b) f =
              (ks, Some x)"
    using plan e assms(3,4) by simp
  from migrate_transactions_plan [OF fb pb] show ?thesis
    by auto
qed


text \<open>A sub-procedure whose batch was committed stages nothing when it runs again.\<close>

lemma migrate_wallets_again:
  assumes "migrate_wallets env a = (Inr n, a')"
    and "wallets_txt a \<noteq> None \<longrightarrow> commit_ok env (commits a)"
    and "new_wallets a = []"
    and "wallets_txt b = wallets_txt a" and "users b = users a" and "wallets b = wallets a'"
    and "new_wallets b = []" and "new_transactions b = []"
  shows "\<exists>m b'. migrate_wallets env b = (Inr m, b') \<and> wallets b' = wallets b \<and>
           transactions b' = transactions b"
proof (cases "wallets_txt a")
  case None
  with assms(4) show ?thesis
    by (simp add: migrate_wallets_def print_def)
next
  case (Some f)
  let ?f = "wallet_verdict env (set (users a))"
  obtain ks e where plan: "run_plan ?f (wallet_keys a) f = (ks, e)"
    by (cases "run_plan ?f (wallet_keys a) f")
  from migrate_wallets_plan [OF Some plan] assms(1) have e: "e = None"
    by (cases e) auto
  from migrate_wallets_plan [OF Some plan] assms(1,2,3) Some e
  obtain staged where "wallets a' = wallets a @ staged" "map user_id staged = ks"
    by auto
  then have keys: "wallet_keys a \<union> set ks \<subseteq> wallet_keys b"
    using assms(3,6,7) by (auto simp: wallet_keys_def)
  have "run_plan ?f (wallet_keys b) f = ([], None)"
    by (rule run_plan_again [OF _ _ plan [unfolded e] keys])
       (erule wallet_verdict_fresh, erule wallet_verdict_mono)
  then have pb: "run_plan (wallet_verdict env (set (users b))) (wallet_keys b) f = ([], None)"
    using assms(5) by simp
  have fb: "wallets_txt b = Some f"
    using Some assms(4) by simp
  from migrate_wallets_plan [OF fb pb] assms(7,8) show ?thesis
    by (cases "commit_ok env (commits b)") auto
qed

lemma migrate_transactions_again:
  assumes "migrate_transactions env a = (Inr n, a')"
    and "transactions_txt a \<noteq> None \<longrightarrow> commit_ok env (commits a)"
    and "new_transactions a = []"
    and "transactions_txt b = transactions_txt a" and "users b = users a"
    and "transactions b = transactions a'"
    and "new_wallets b = []" and "new_transactions b = []"
  shows "\<exists>m b'. migrate_transactions env b = (Inr m, b') \<and> wallets b' = wallets b \<and>
           transactions b' = transactions b"
proof (cases "transactions_txt a")
  case None
  with assms(4) show ?thesis
    by (simp add: migrate_transactions_def print_def)
next
  case (Some f)
  let ?f = "transaction_verdict env (set (users a))"
  let ?key = "\<lambda>x. (transaction_id x, txn_user_id x)"
  obtain ks e where plan: "run_plan ?f (transaction_keys a) f = (ks, e)"
    by (cases "run_plan ?f (transaction_keys a) f")
  from migrate_transactions_plan [OF Some plan] assms(1) have e: "e = None"
    by (cases e) auto
  from migrate_transactions_plan [OF Some plan] assms(1,2,3) Some e
  obtain staged where "transactions a' = transactions a @ staged" "map ?key staged = ks"
    by auto
  then have keys: "transaction_keys a \<union> set ks \<subseteq> transaction_keys b"
    using assms(3,6,8) by (auto simp: transaction_keys_def)
  have "run_plan ?f (transaction_keys b) f = ([], None)"
    by (rule run_plan_again [OF _ _ plan [unfolded e] keys])
       (erule transaction_verdict_fresh, erule transaction_verdict_mono)
  then have pb:
    "run_plan (transaction_verdict env (set (users b))) (transaction_keys b) f = ([], None)"
    using assms(5) by simp
  have fb: "transactions_txt b = Some f"
    using Some assms(4) by simp
  from migrate_transactions_plan [OF fb pb] assms(7,8) show ?thesis
    by (cases "commit_ok env (commits b)") auto
qed


lemmas job_defs = run_job_def create_app_def

text \<open>
  As stated, for every pair of files and every run, the idempotence of C1 does not hold: a
  commit of the first run can be rejected. With the files
  \<^verbatim>\<open>{"user_id": 7, "balance": 250.5}\<close> and
  \<^verbatim>\<open>{"id": "TXN1", "user_id": 3, "amount": -50}\<close>, and the first commit rejected, the first
  run rolls its wallet back (and still reports one wallet migrated), so that one run leaves
  no wallet and two runs leave one: the second run inserts a row.
\<close>

theorem rerun_after_rejected_commit_counterexample:
  "length (wallets (snd (run_job flaky_env
                           (example_world (Some [line_w7]) (Some [line_t1]))))) = 0 \<and>
   length (wallets (snd (run_job flaky_env
                           (snd (run_job flaky_env
                                   (example_world (Some [line_w7]) (Some [line_t1]))))))) = 1 \<and>
   fst (run_job flaky_env (example_world (Some [line_w7]) (Some [line_t1]))) = Inr (1, 1) \<and>
   fst (run_job flaky_env
          (snd (run_job flaky_env (example_world (Some [line_w7]) (Some [line_t1]))))) =
     Inr (1, 0)"
  by (simp add: flaky_env_def example_defs line_defs proc_defs job_defs)

text \<open>
  C1, amended. When every commit that the first run attempts is accepted, the second of two
  runs in succession over the same files inserts nothing: the wallet and transaction tables
  after the second run are those after the first, hence so are the row counts. Each row
  that the first run committed is found by the existence check of the second run (by user
  id for a wallet, by transaction id and user id for a transaction), and a run that ended
  with an exception, having committed nothing in that sub-procedure, ends the same way again.
\<close>

theorem rerun_inserts_nothing:
  assumes "run_job env w = (r1, w1)" and "run_job env w1 = (r2, w2)"
    and "\<forall>k. commits w \<le> k \<and> k < commits w1 \<longrightarrow> commit_ok env k"
  shows "wallets w2 = wallets w1 \<and> transactions w2 = transactions w1"
proof -
  let ?start = "\<lambda>v. print HeadingWallets
                     (print TablesVerified (db_call CreateAll (create_app (print Banner v))))"
  let ?a0 = "?start w" and ?b0 = "?start w1"
  have start: "wallets (?start v) = wallets v" "transactions (?start v) = transactions v"
    "users (?start v) = users v" "wallets_txt (?start v) = wallets_txt v"
    "transactions_txt (?start v) = transactions_txt v" "commits (?start v) = commits v"
    "new_wallets (?start v) = []" "new_transactions (?start v) = []" for v :: "'a world"
    by (simp_all add: print_def db_call_def create_app_def)
  have heading: "wallets (print l v) = wallets v" "transactions (print l v) = transactions v"
    "users (print l v) = users v" "wallets_txt (print l v) = wallets_txt v"
    "transactions_txt (print l v) = transactions_txt v" "commits (print l v) = commits v"
    "new_wallets (print l v) = new_wallets v"
    "new_transactions (print l v) = new_transactions v" for l and v :: "'a world"
    by (simp_all add: print_def)
  obtain rw a1 where mw: "migrate_wallets env ?a0 = (rw, a1)"
    by (cases "migrate_wallets env ?a0")
  note fw = migrate_wallets_frame [OF mw start(7) start(8)]
  show ?thesis
  proof (cases rw)
    case (Inl x)
    with mw assms(1) have w1: "w1 = a1"
      by (simp add: run_job_def)
    with fw Inl have same: "wallets w1 = wallets w" "users w1 = users w"
      "wallets_txt w1 = wallets_txt w"
      by (simp_all add: start)
    have "\<exists>b'. migrate_wallets env ?b0 = (Inl x, b') \<and> wallets b' = wallets ?b0 \<and>
            transactions b' = transactions ?b0"
      by (rule migrate_wallets_raises_again [OF mw [unfolded Inl]])
         (simp_all add: start same wallet_keys_def)
    then obtain b' where "migrate_wallets env ?b0 = (Inl x, b')" "wallets b' = wallets ?b0"
      "transactions b' = transactions ?b0"
      by blast
    with assms(2) show ?thesis
      by (simp add: run_job_def start)
  next
    case (Inr n)
    let ?a1 = "print HeadingTransactions a1"
    obtain rt a2 where mt: "migrate_transactions env ?a1 = (rt, a2)"
      by (cases "migrate_transactions env ?a1")
    from fw Inr have a1: "new_wallets a1 = []" "new_transactions a1 = []"
      "users a1 = users w" "wallets_txt a1 = wallets_txt w"
      "transactions_txt a1 = transactions_txt w" "transactions a1 = transactions w"
      "commits w \<le> commits a1" "wallets_txt w \<noteq> None \<longrightarrow> commits a1 = commits w + 1"
      by (simp_all add: start)
    have sa1: "new_wallets ?a1 = []" "new_transactions ?a1 = []"
      using a1 by (simp_all add: heading)
    note ft = migrate_transactions_frame [OF mt sa1]
    have w1_rel: "wallets w1 = wallets a1" "commits w1 = commits a2" "users w1 = users w"
      "wallets_txt w1 = wallets_txt w" "transactions_txt w1 = transactions_txt w"
      "transactions w1 = transactions a2"
    proof -
      from assms(1) mw mt Inr have "w1 = a2 \<or> (\<exists>l. w1 = print l a2)"
        by (cases rt) (auto simp: run_job_def)
      then have "wallets w1 = wallets a2" "commits w1 = commits a2" "users w1 = users a2"
        "wallets_txt w1 = wallets_txt a2" "transactions_txt w1 = transactions_txt a2"
        "transactions w1 = transactions a2"
        by (auto simp: heading)
      with ft a1 show "wallets w1 = wallets a1" "commits w1 = commits a2" "users w1 = users w"
        "wallets_txt w1 = wallets_txt w" "transactions_txt w1 = transactions_txt w"
        "transactions w1 = transactions a2"
        by (simp_all add: heading)
    qed
    from ft have ct: "commits a1 \<le> commits a2"
      "transactions_txt a1 \<noteq> None \<and> (\<exists>k. rt = Inr k) \<longrightarrow> commits a2 = commits a1 + 1"
      by (auto simp: heading)
    have ok_w: "wallets_txt ?a0 \<noteq> None \<longrightarrow> commit_ok env (commits ?a0)"
      using assms(3) a1(8) ct(1) w1_rel(2) by (auto simp: start)
    have "\<exists>m b'. migrate_wallets env ?b0 = (Inr m, b') \<and> wallets b' = wallets ?b0 \<and>
            transactions b' = transactions ?b0"
      by (rule migrate_wallets_again [OF mw [unfolded Inr] ok_w])
         (simp_all add: start w1_rel)
    then obtain m b1 where mb: "migrate_wallets env ?b0 = (Inr m, b1)"
      and b1: "wallets b1 = wallets w1" "transactions b1 = transactions w1"
      by (auto simp: start)
    from migrate_wallets_frame [OF mb start(7) start(8)]
    have fb: "users b1 = users w1" "wallets_txt b1 = wallets_txt w1"
      "transactions_txt b1 = transactions_txt w1" "new_wallets b1 = []"
      "new_transactions b1 = []"
      by (simp_all add: start)
    let ?b1 = "print HeadingTransactions b1"
    show ?thesis
    proof (cases rt)
      case (Inl x)
      with ft have ta: "transactions a2 = transactions ?a1"
        by simp
      have "\<exists>b'. migrate_transactions env ?b1 = (Inl x, b') \<and> wallets b' = wallets ?b1 \<and>
              transactions b' = transactions ?b1"
        by (rule migrate_transactions_raises_again [OF mt [unfolded Inl]])
           (simp_all add: heading fb w1_rel a1 b1 ta transaction_keys_def)
      then obtain b' where "migrate_transactions env ?b1 = (Inl x, b')"
        "wallets b' = wallets ?b1" "transactions b' = transactions ?b1"
        by blast
      with assms(2) mb b1 show ?thesis
        by (simp add: run_job_def heading)
    next
      case (Inr k)
      have ok_t: "transactions_txt ?a1 \<noteq> None \<longrightarrow> commit_ok env (commits ?a1)"
        using assms(3) a1(7) ct(2) Inr w1_rel(2) by (auto simp: heading)
      have "\<exists>m b'. migrate_transactions env ?b1 = (Inr m, b') \<and> wallets b' = wallets ?b1 \<and>
              transactions b' = transactions ?b1"
        by (rule migrate_transactions_again [OF mt [unfolded Inr] ok_t])
           (simp_all add: heading fb w1_rel a1 b1)
      then obtain m' b' where "migrate_transactions env ?b1 = (Inr m', b')"
        "wallets b' = wallets ?b1" "transactions b' = transactions ?b1"
        by blast
      with assms(2) mb b1 show ?thesis
        by (auto simp: run_job_def heading)
    qed
  qed
qed

theorem rerun_inserts_nothing_witness:
  "fst (run_job example_env (example_world (Some [line_w7]) (Some [line_t1]))) = Inr (1, 1) \<and>
   fst (run_job example_env
          (snd (run_job example_env (example_world (Some [line_w7]) (Some [line_t1]))))) =
     Inr (0, 0) \<and>
   map user_id
     (wallets (snd (run_job example_env
                      (snd (run_job example_env
                              (example_world (Some [line_w7]) (Some [line_t1]))))))) = [7] \<and>
   map (\<lambda>x. (transaction_id x, txn_user_id x))
     (transactions (snd (run_job example_env
                      (snd (run_job example_env
                              (example_world (Some [line_w7]) (Some [line_t1]))))))) =
     [(JStr ''TXN1'', 3)]"
  using rerun_inserts_nothing [of example_env "example_world (Some [line_w7]) (Some [line_t1])"
      "fst (run_job example_env (example_world (Some [line_w7]) (Some [line_t1])))"
      "snd (run_job example_env (example_world (Some [line_w7]) (Some [line_t1])))"
      "fst (run_job example_env
              (snd (run_job example_env (example_world (Some [line_w7]) (Some [line_t1])))))"
      "snd (run_job example_env
              (snd (run_job example_env (example_world (Some [line_w7]) (Some [line_t1])))))"]
  by (simp add: example_defs line_defs proc_defs job_defs)

end
